theory Spec2Isabelle
  imports Complex_Main "HOL-Library.AList"
begin

section \<open>Values exchanged with the backend\<close>

text \<open>
  The front end receives parsed JSON. A value is \<open>null\<close>, a boolean, a number, a string,
  an array or an object; \<open>undefined\<close> (a property that is not there, a missing response
  body) is \<open>None\<close> of \<open>jsval option\<close>. Numbers are the integral ones. An object is the
  list of its properties in the order they were written; a property written twice keeps
  its last value.
\<close>

datatype jsval =
    JNull
  | JBool bool
  | JNum int
  | JStr string
  | JArr "jsval list"
  | JObj "(string \<times> jsval) list"

text \<open>A rejected request: \<open>err.message\<close> and \<open>err.response?.status\<close>.\<close>

datatype js_error = JsError (err_message: string) (err_status: "nat option")

text \<open>What \<open>await api.get(...)\<close> gives: it throws, or it returns \<open>res\<close> whose
  \<open>res.data\<close> may be missing.\<close>

type_synonym 'a response = "js_error + 'a option"

definition digit_char :: "nat \<Rightarrow> char" where
  "digit_char d = ''0123456789'' ! d"

fun digits :: "nat \<Rightarrow> string" where
  "digits n = (if n < 10 then [digit_char n] else digits (n div 10) @ [digit_char (n mod 10)])"

declare digits.simps [simp del]

text \<open>The own enumerable properties of a value that \<open>typeof\<close> calls an object: those of
  an object, and the indices of an array.\<close>

fun own_props :: "jsval \<Rightarrow> (string \<times> jsval) list" where
  "own_props (JObj kv) = kv"
| "own_props (JArr xs) = zip (map digits [0..<length xs]) xs"
| "own_props _ = []"

text \<open>\<open>raw?.k\<close>, for the property names read here (none is \<open>length\<close>); the last
  value written wins, as in \<open>JSON.parse\<close>.\<close>

fun get_prop :: "jsval option \<Rightarrow> string \<Rightarrow> jsval option" where
  "get_prop None k = None"
| "get_prop (Some v) k = map_of (rev (own_props v)) k"

text \<open>\<open>res.data || []\<close>\<close>

definition data_or_empty :: "'a list option \<Rightarrow> 'a list" where
  "data_or_empty d = (case d of None \<Rightarrow> [] | Some xs \<Rightarrow> xs)"

definition nullish :: "jsval option \<Rightarrow> bool" where
  "nullish v = (v = None \<or> v = Some JNull)"

text \<open>\<open>a ?? b\<close>\<close>

definition nc :: "jsval option \<Rightarrow> jsval option \<Rightarrow> jsval option" where
  "nc a b = (if nullish a then b else a)"

fun truthy :: "jsval \<Rightarrow> bool" where
  "truthy JNull = False"
| "truthy (JBool b) = b"
| "truthy (JNum n) = (n \<noteq> 0)"
| "truthy (JStr s) = (s \<noteq> [])"
| "truthy (JArr xs) = True"
| "truthy (JObj kv) = True"

text \<open>\<open>!v\<close>\<close>

definition js_not :: "jsval option \<Rightarrow> bool" where
  "js_not v = (case v of None \<Rightarrow> True | Some x \<Rightarrow> \<not> truthy x)"

fun join_with :: "string \<Rightarrow> string list \<Rightarrow> string" where
  "join_with sep [] = []"
| "join_with sep [x] = x"
| "join_with sep (x # y # ys) = x @ sep @ join_with sep (y # ys)"

text \<open>\<open>String(v)\<close>; an array joins its elements with commas, \<open>null\<close> elements as the
  empty string.\<close>

fun js_String :: "jsval \<Rightarrow> string" where
  "js_String JNull = ''null''"
| "js_String (JBool b) = (if b then ''true'' else ''false'')"
| "js_String (JNum n) = (if n < 0 then CHR ''-'' # digits (nat (- n)) else digits (nat n))"
| "js_String (JStr s) = s"
| "js_String (JArr xs) = join_with '','' (map (\<lambda>x. if x = JNull then [] else js_String x) xs)"
| "js_String (JObj kv) = ''[object Object]''"


section \<open>api/repos.ts\<close>

record RepoBrief =
  brief_id :: string
  brief_label :: string
  brief_source_type :: "string option"

text \<open>\<open>getRepoNames\<close>: \<open>return res.data || {}\<close>. A \<open>Record<string, string>\<close> is the
  list of its entries.\<close>

definition getRepoNames :: "(string \<times> string) list response \<Rightarrow> js_error + (string \<times> string) list" where
  "getRepoNames res =
     (case res of
        Inl err \<Rightarrow> Inl err
      | Inr d \<Rightarrow> Inr (data_or_empty d))"


text \<open>
  \<open>getRepoBriefs\<close>. The first argument is the outcome of \<open>GET /repos/briefs\<close>, the second
  the outcome \<open>GET /repos/names\<close> has when it is asked. \<open>map[r.id] = r\<close> in a loop is a fold
  of map updates. (An id spelled \<open>__proto__\<close> would not become a key of a JavaScript object;
  ids are taken to be ordinary property names.)
\<close>

definition getRepoBriefs ::
  "RepoBrief list response \<Rightarrow> (string \<times> string) list response \<Rightarrow> js_error + (string \<rightharpoonup> RepoBrief)" where
  "getRepoBriefs briefs_res names_res =
     (case briefs_res of
        Inr d \<Rightarrow>
          Inr (fold (\<lambda>r m. m(brief_id r \<mapsto> r)) (data_or_empty d) Map.empty)
      | Inl err \<Rightarrow>
          if err_status err \<noteq> Some 404 then Inl err
          else
            (case getRepoNames names_res of
               Inl err2 \<Rightarrow> Inl err2
             | Inr names \<Rightarrow>
                 Inr (fold (\<lambda>(i, l) m. m(i \<mapsto> \<lparr>brief_id = i, brief_label = l, brief_source_type = None\<rparr>))
                        names Map.empty)))"

text \<open>The brief the fallback builds from an entry of the names listing.\<close>

definition brief_of_name :: "string \<times> string \<Rightarrow> RepoBrief" where
  "brief_of_name e = \<lparr>brief_id = fst e, brief_label = snd e, brief_source_type = None\<rparr>"


section \<open>api/conversations.ts\<close>

record Conversation =
  conv_id :: string
  conv_repo_id :: string
  conv_title :: jsval
  conv_created_at :: jsval
  conv_updated_at :: jsval
  conv_latest_question :: jsval

text \<open>The end of a \<open>??\<close> chain, \<open>... ?? null\<close>, as a value.\<close>

definition or_null :: "jsval option \<Rightarrow> jsval" where
  "or_null v = (case v of None \<Rightarrow> JNull | Some x \<Rightarrow> x)"

definition raw_id :: "jsval option \<Rightarrow> jsval option" where
  "raw_id raw =
     nc (nc (nc (nc (get_prop raw ''id'') (get_prop raw ''conversation_id'')) (get_prop raw ''conversationId''))
           (get_prop raw ''pk'')) (Some JNull)"

definition raw_repo_id :: "jsval option \<Rightarrow> jsval option" where
  "raw_repo_id raw =
     nc (nc (nc (get_prop raw ''repo_id'') (get_prop raw ''repoId'')) (get_prop raw ''repository_id'')) (Some JNull)"

definition normalizeConvo :: "jsval option \<Rightarrow> Conversation option" where
  "normalizeConvo raw =
     (let i = raw_id raw; repo_id = raw_repo_id raw in
      if js_not i \<or> js_not repo_id then None
      else Some
        \<lparr>conv_id = js_String (or_null i),
         conv_repo_id = js_String (or_null repo_id),
         conv_title =
           or_null (nc (nc (nc (nc (get_prop raw ''title'') (get_prop raw ''name'')) (get_prop raw ''latest_question''))
                          (get_prop (get_prop raw ''first_message'') ''content'')) (Some JNull)),
         conv_created_at = or_null (nc (nc (get_prop raw ''created_at'') (get_prop raw ''createdAt'')) (Some JNull)),
         conv_updated_at = or_null (nc (nc (get_prop raw ''updated_at'') (get_prop raw ''updatedAt'')) (Some JNull)),
         conv_latest_question = or_null (nc (get_prop raw ''latest_question'') (Some JNull))\<rparr>)"

text \<open>\<open>(res.data || []).map(normalizeConvo).filter(Boolean)\<close>: a conversation object is
  truthy, \<open>null\<close> is not. The body is an array, as it is typed.\<close>

definition normalize_rows :: "jsval list option \<Rightarrow> Conversation list" where
  "normalize_rows d =
     map the (filter (\<lambda>c. c \<noteq> None) (map (\<lambda>raw. normalizeConvo (Some raw)) (data_or_empty d)))"

text \<open>\<open>listConversations\<close>: \<open>GET /conversations\<close>, and when that throws
  \<open>GET /conversations/\<close>, whose failure is the caller's.\<close>

definition listConversations :: "jsval list response \<Rightarrow> jsval list response \<Rightarrow> js_error + Conversation list" where
  "listConversations res1 res2 =
     (case res1 of
        Inr d \<Rightarrow> Inr (normalize_rows d)
      | Inl _ \<Rightarrow> (case res2 of Inl err \<Rightarrow> Inl err | Inr d \<Rightarrow> Inr (normalize_rows d)))"

text \<open>The claim's words: a record lacks a field when reading it gives \<open>undefined\<close> or
  \<open>null\<close>; the first present alternative is the first field that is not lacking.\<close>

definition lacks_all :: "jsval option \<Rightarrow> string list \<Rightarrow> bool" where
  "lacks_all raw keys = list_all (\<lambda>k. nullish (get_prop raw k)) keys"

definition first_present :: "jsval option \<Rightarrow> string list \<Rightarrow> jsval" where
  "first_present raw keys =
     (case find (\<lambda>k. \<not> nullish (get_prop raw k)) keys of None \<Rightarrow> JNull | Some k \<Rightarrow> or_null (get_prop raw k))"

definition id_keys :: "string list" where
  "id_keys = [''id'', ''conversation_id'', ''conversationId'', ''pk'']"

definition repo_keys :: "string list" where
  "repo_keys = [''repo_id'', ''repoId'', ''repository_id'']"


section \<open>pages/ChatPage.tsx: the context cache\<close>

text \<open>
  \<open>localStorage\<close> maps keys to strings. A stored string is held as what \<open>JSON.parse\<close>
  makes of it: the JSON text of a value, or a text that does not parse (the empty string is
  one). An access throws when the storage is denied to the page; a write throws as well
  when the quota is used up.
\<close>

datatype stored_text = JsonText jsval | BadText string

datatype storage_error = SecurityError | QuotaExceededError

record local_storage =
  ls_items :: "string \<rightharpoonup> stored_text"
  ls_denied :: bool
  ls_full :: bool

definition getItem :: "local_storage \<Rightarrow> string \<Rightarrow> storage_error + stored_text option" where
  "getItem ls k = (if ls_denied ls then Inl SecurityError else Inr (ls_items ls k))"

definition setItem :: "local_storage \<Rightarrow> string \<Rightarrow> stored_text \<Rightarrow> storage_error + local_storage" where
  "setItem ls k v =
     (if ls_denied ls then Inl SecurityError
      else if ls_full ls then Inl QuotaExceededError
      else Inr (ls\<lparr>ls_items := (ls_items ls)(k \<mapsto> v)\<rparr>))"

text \<open>\<open>JSON.parse\<close> throws a \<open>SyntaxError\<close> (\<open>None\<close>) on a text that is not JSON.\<close>

definition JSON_parse :: "stored_text \<Rightarrow> jsval option" where
  "JSON_parse raw = (case raw of JsonText v \<Rightarrow> Some v | BadText _ \<Rightarrow> None)"

definition JSON_stringify :: "jsval \<Rightarrow> stored_text" where
  "JSON_stringify v = JsonText v"

definition ctxKey :: "string \<Rightarrow> string" where
  "ctxKey cid = ''ctxcache:'' @ cid"

text \<open>\<open>typeof obj === "object" && obj\<close>\<close>

fun is_object :: "jsval \<Rightarrow> bool" where
  "is_object (JObj kv) = True"
| "is_object (JArr xs) = True"
| "is_object _ = False"

definition readCtxCache :: "local_storage \<Rightarrow> string \<Rightarrow> jsval" where
  "readCtxCache ls cid =
     (case getItem ls (ctxKey cid) of
        Inl _ \<Rightarrow> JObj []
      | Inr None \<Rightarrow> JObj []
      | Inr (Some raw) \<Rightarrow>
          if raw = BadText [] then JObj []
          else
            (case JSON_parse raw of
               None \<Rightarrow> JObj []
             | Some obj \<Rightarrow> if is_object obj then obj else JObj []))"

text \<open>\<open>writeCtxCache\<close>: \<open>try { localStorage.setItem(...) } catch {}\<close>\<close>

definition writeCtxCache :: "local_storage \<Rightarrow> string \<Rightarrow> jsval \<Rightarrow> local_storage" where
  "writeCtxCache ls cid m =
     (case setItem ls (ctxKey cid) (JSON_stringify m) of Inl _ \<Rightarrow> ls | Inr ls' \<Rightarrow> ls')"

text \<open>\<open>{ ...target, ...src }\<close>: each property of \<open>src\<close> in turn replaces the target's
  property of that name, or is added after the others.\<close>

definition obj_spread :: "(string \<times> jsval) list \<Rightarrow> (string \<times> jsval) list \<Rightarrow> (string \<times> jsval) list" where
  "obj_spread target src = fold (\<lambda>(k, v) al. AList.update k v al) src target"

definition mergeCtxCache :: "local_storage \<Rightarrow> string \<Rightarrow> (string \<times> jsval) list \<Rightarrow> jsval \<times> local_storage" where
  "mergeCtxCache ls cid add =
     (let base = readCtxCache ls cid;
          merged = JObj (obj_spread (obj_spread [] (own_props base)) add)
      in (merged, writeCtxCache ls cid merged))"


section \<open>pages/ChatPage.tsx and components/QueryForm.tsx: asking a question\<close>

text \<open>\<open>toLowerCase\<close> and \<open>trim\<close>, on ASCII.\<close>

definition lower_char :: "char \<Rightarrow> char" where
  "lower_char c =
     (case map_of (zip ''ABCDEFGHIJKLMNOPQRSTUVWXYZ'' ''abcdefghijklmnopqrstuvwxyz'') c of
        None \<Rightarrow> c
      | Some d \<Rightarrow> d)"

definition ascii_lower :: "string \<Rightarrow> string" where
  "ascii_lower s = map lower_char s"

definition js_space :: "char \<Rightarrow> bool" where
  "js_space c = (c \<in> set [CHR 0x20, CHR 0x09, CHR 0x0A, CHR 0x0B, CHR 0x0C, CHR 0x0D])"

definition js_trim :: "string \<Rightarrow> string" where
  "js_trim s = rev (dropWhile js_space (rev (dropWhile js_space s)))"

record RepoStatus =
  status_repoId :: string
  status_label :: "string option"
  status_documents :: "int option"

datatype role = User | Assistant

record ChatMessage =
  msg_id :: string
  msg_content :: string
  msg_role :: role
  msg_contexts :: "jsval list"

record chat_state =
  cs_repoId :: "string option"
  cs_conversationId :: "string option"
  cs_isAsking :: bool
  cs_repoStatus :: "RepoStatus option"
  cs_manuallyReady :: bool
  cs_chatHistory :: "ChatMessage list"
  cs_ctxByMessage :: jsval
  cs_storage :: local_storage

text \<open>\<open>getRepoStatus\<close>: \<open>return res.data ?? null\<close>\<close>

definition getRepoStatus :: "RepoStatus response \<Rightarrow> js_error + RepoStatus option" where
  "getRepoStatus res = (case res of Inl err \<Rightarrow> Inl err | Inr d \<Rightarrow> Inr d)"

text \<open>
  The test written three times in the page:
  \<open>label === "indexed" || label === "done" || docs > 0\<close> with
  \<open>label = (s.status || "").toLowerCase()\<close> and \<open>docs = Number(s.stats?.documents || 0)\<close>.
\<close>

definition status_ready :: "RepoStatus option \<Rightarrow> bool" where
  "status_ready s =
     (let label = ascii_lower (case s of None \<Rightarrow> [] | Some x \<Rightarrow> (case status_label x of None \<Rightarrow> [] | Some l \<Rightarrow> l));
          docs = (case s of None \<Rightarrow> 0 | Some x \<Rightarrow> (case status_documents x of None \<Rightarrow> 0 | Some n \<Rightarrow> n))
      in label = ''indexed'' \<or> label = ''done'' \<or> docs > 0)"

definition hasAssistantHistory :: "chat_state \<Rightarrow> bool" where
  "hasAssistantHistory st = list_ex (\<lambda>m. msg_role m = Assistant) (cs_chatHistory st)"

definition isRepoReady :: "chat_state \<Rightarrow> bool" where
  "isRepoReady st = (cs_manuallyReady st \<or> hasAssistantHistory st \<or> status_ready (cs_repoStatus st))"

text \<open>What \<open>handleAsk\<close> does that can be seen from outside, in order.\<close>

datatype effect =
    Call_getRepoStatus string
  | Call_createConversation string
  | Call_createMessage string role string
  | Call_askAnswer string string string
  | Navigate string
  | Toast_error string
  | Form_error string
  | Console_error

text \<open>The outcomes of the calls \<open>handleAsk\<close> awaits, and the clock.\<close>

record answer_body =
  answer_text :: string
  answer_contexts :: "jsval list option"

record ask_env =
  env_status :: "RepoStatus response"
  env_conversation :: "js_error + Conversation option"
  env_user_message :: "js_error + ChatMessage option"
  env_answer :: "js_error + answer_body"
  env_assistant_message :: "js_error + ChatMessage option"
  env_now :: nat

definition ensureConversation :: "chat_state \<Rightarrow> ask_env \<Rightarrow> string \<Rightarrow> effect list \<times> (js_error + string)" where
  "ensureConversation st env rid =
     (if cs_conversationId st \<noteq> None \<and> cs_conversationId st \<noteq> Some [] then ([], Inr (the (cs_conversationId st)))
      else
        (case env_conversation env of
           Inl err \<Rightarrow> ([Call_createConversation rid], Inl err)
         | Inr conv \<Rightarrow>
             if conv = None \<or> conv_id (the conv) = []
             then ([Call_createConversation rid], Inl (JsError ''create conversation failed'' None))
             else ([Call_createConversation rid, Navigate (''/conversation/'' @ conv_id (the conv))],
                   Inr (conv_id (the conv)))))"

text \<open>The \<open>try\<close> block of \<open>handleAsk\<close>, with its \<open>catch\<close> (\<open>console.error\<close>) and
  its \<open>finally\<close> (\<open>setIsAsking(false)\<close>). Scrolling and the reload counter are not
  part of the state kept here.\<close>

definition ask_body :: "chat_state \<Rightarrow> ask_env \<Rightarrow> string \<Rightarrow> string \<Rightarrow> effect list \<times> chat_state" where
  "ask_body st env rid question =
     (case ensureConversation st env rid of
        (es, Inl _) \<Rightarrow> (es @ [Console_error], st\<lparr>cs_isAsking := False\<rparr>)
      | (es, Inr convId) \<Rightarrow>
          (let tempId = ''temp-'' @ digits (env_now env);
               userMsg = \<lparr>msg_id = tempId, msg_content = question, msg_role = User, msg_contexts = []\<rparr>;
               st1 = st\<lparr>cs_chatHistory := cs_chatHistory st @ [userMsg]\<rparr>;
               es1 = es @ [Call_createMessage convId User question]
           in case env_user_message env of
                Inl _ \<Rightarrow> (es1 @ [Console_error], st1\<lparr>cs_isAsking := False\<rparr>)
              | Inr _ \<Rightarrow>
                  (let es2 = es1 @ [Call_askAnswer rid question convId]
                   in case env_answer env of
                        Inl _ \<Rightarrow> (es2 @ [Console_error], st1\<lparr>cs_isAsking := False\<rparr>)
                      | Inr a \<Rightarrow>
                          (let es3 = es2 @ [Call_createMessage convId Assistant (answer_text a)]
                           in case env_assistant_message env of
                                Inl _ \<Rightarrow> (es3 @ [Console_error], st1\<lparr>cs_isAsking := False\<rparr>)
                              | Inr savedA \<Rightarrow>
                                  (let assistantMsg =
                                         \<lparr>msg_id = (case savedA of None \<Rightarrow> ''a-'' @ digits (env_now env) | Some m \<Rightarrow> msg_id m),
                                          msg_content = answer_text a,
                                          msg_role = Assistant,
                                          msg_contexts = data_or_empty (answer_contexts a)\<rparr>;
                                       st2 = st1\<lparr>cs_chatHistory :=
                                                filter (\<lambda>m. msg_id m \<noteq> tempId) (cs_chatHistory st1) @ [userMsg, assistantMsg]\<rparr>;
                                       st3 = (if msg_contexts assistantMsg \<noteq> [] \<and> convId \<noteq> []
                                              then (case mergeCtxCache (cs_storage st2) convId
                                                           [(msg_id assistantMsg, JArr (msg_contexts assistantMsg))] of
                                                      (merged, ls) \<Rightarrow> st2\<lparr>cs_ctxByMessage := merged, cs_storage := ls\<rparr>)
                                              else st2)
                                   in (es3,
                                       st3\<lparr>cs_manuallyReady := True,
                                           cs_repoStatus :=
                                             (case cs_repoStatus st3 of
                                                None \<Rightarrow> Some \<lparr>status_repoId = rid, status_label = Some ''indexed'',
                                                               status_documents = Some 1\<rparr>
                                              | Some prev \<Rightarrow> Some prev),
                                           cs_isAsking := False\<rparr>))))))"

definition handleAsk :: "chat_state \<Rightarrow> ask_env \<Rightarrow> string \<Rightarrow> effect list \<times> chat_state" where
  "handleAsk st env question =
     (if cs_repoId st = None \<or> cs_repoId st = Some [] \<or> cs_isAsking st then ([], st)
      else
        (let rid = the (cs_repoId st) in
         if \<not> isRepoReady st then
           (case getRepoStatus (env_status env) of
              Inl _ \<Rightarrow> ([Call_getRepoStatus rid, Toast_error ''Repository is not ready yet.''], st)
            | Inr None \<Rightarrow> ([Call_getRepoStatus rid, Toast_error ''Repository is not ready yet.''], st)
            | Inr (Some s) \<Rightarrow>
                if \<not> status_ready (Some s)
                then ([Call_getRepoStatus rid, Toast_error ''Repository is not indexed yet.''],
                      st\<lparr>cs_repoStatus := Some s\<rparr>)
                else
                  (case ask_body (st\<lparr>cs_repoStatus := Some s, cs_isAsking := True\<rparr>) env rid question of
                     (es, st') \<Rightarrow> (Call_getRepoStatus rid # es, st')))
         else ask_body (st\<lparr>cs_isAsking := True\<rparr>) env rid question))"

text \<open>Whether the answer operation is among the calls made.\<close>

fun is_askAnswer :: "effect \<Rightarrow> bool" where
  "is_askAnswer (Call_askAnswer rid q cid) = True"
| "is_askAnswer _ = False"

definition asks :: "effect list \<Rightarrow> bool" where
  "asks es = list_ex is_askAnswer es"

text \<open>
  \<open>QueryForm\<close>: \<open>canAsk = parentReady || isIndexed\<close> with \<open>parentReady\<close> read from the
  \<open>disabled\<close> property when it is a boolean, from \<open>ready\<close> otherwise; \<open>isIndexed\<close> comes
  from the progress hook. \<open>ask\<close> trims the question, drops an empty one, shows an error
  when it cannot ask and hands the question to \<open>onAsk\<close> otherwise.
\<close>

definition canAsk :: "bool option \<Rightarrow> bool option \<Rightarrow> bool \<Rightarrow> bool" where
  "canAsk disabledProp ready isIndexed =
     ((case disabledProp of Some d \<Rightarrow> \<not> d | None \<Rightarrow> ready = Some True) \<or> isIndexed)"

definition QueryForm_ask ::
  "bool option \<Rightarrow> bool option \<Rightarrow> bool \<Rightarrow> string \<Rightarrow> (string \<Rightarrow> effect list \<times> 's) \<Rightarrow> 's \<Rightarrow> effect list \<times> 's" where
  "QueryForm_ask disabledProp ready isIndexed question onAsk unchanged =
     (let q = js_trim question in
      if q = [] then ([], unchanged)
      else if \<not> canAsk disabledProp ready isIndexed then ([Form_error ''Repository is not ready yet.''], unchanged)
      else onAsk q)"

text \<open>The page renders \<open><QueryForm onAsk={handleAsk} disabled={!isRepoReady} />\<close>.\<close>

definition page_ask :: "chat_state \<Rightarrow> bool \<Rightarrow> ask_env \<Rightarrow> string \<Rightarrow> effect list \<times> chat_state" where
  "page_ask st isIndexed env question =
     QueryForm_ask (Some (\<not> isRepoReady st)) None isIndexed question (handleAsk st env) st"

text \<open>
  Selecting a repository runs the effect on \<open>repoId\<close>: it clears \<open>manuallyReady\<close> and
  \<open>repoStatus\<close>, fetches the status and, when there is one, stores it and sets
  \<open>manuallyReady\<close> if it is ready.
\<close>

definition select_repo :: "chat_state \<Rightarrow> string \<Rightarrow> RepoStatus response \<Rightarrow> chat_state" where
  "select_repo st rid res =
     (let st0 = st\<lparr>cs_repoId := Some rid, cs_manuallyReady := False, cs_repoStatus := None\<rparr> in
      if rid = [] then st0
      else
        (case getRepoStatus res of
           Inr (Some s) \<Rightarrow>
             (if status_ready (Some s) then st0\<lparr>cs_repoStatus := Some s, cs_manuallyReady := True\<rparr>
              else st0\<lparr>cs_repoStatus := Some s\<rparr>)
         | _ \<Rightarrow> st0))"

definition initial_state :: chat_state where
  "initial_state =
     \<lparr>cs_repoId = None, cs_conversationId = None, cs_isAsking = False, cs_repoStatus = None,
      cs_manuallyReady = False, cs_chatHistory = [], cs_ctxByMessage = JObj [],
      cs_storage = \<lparr>ls_items = Map.empty, ls_denied = False, ls_full = False\<rparr>\<rparr>"


section \<open>components/Sidebar.tsx: deleting a repository\<close>






section \<open>db/migrations/0002: the schema\<close>

text \<open>
  A table is the list of its rows, a statement returns the new database or the error that
  aborts it. A nullable column is an \<open>option\<close>. Of each table the key, the references and
  the columns a constraint or a trigger reads are kept; the columns that reference
  \<open>users\<close> are nullable and stay \<open>NULL\<close>, but for the owner of a repository, which the
  unique index on \<open>(owner_user_id, name)\<close> reads. A \<open>uuid\<close> is supplied by the caller.
\<close>

type_synonym uuid = nat

datatype db_error =
    unique_violation
  | foreign_key_violation
  | not_null_violation
  | check_violation
  | data_exception

subsection \<open>\<open>derive_repo_name\<close> and the trigger on \<open>repos\<close>\<close>

text \<open>\<open>btrim(x)\<close> removes spaces at both ends.\<close>

definition sql_btrim :: "string \<Rightarrow> string" where
  "sql_btrim s = rev (dropWhile (\<lambda>c. c = CHR '' '') (rev (dropWhile (\<lambda>c. c = CHR '' '') s)))"

text \<open>\<open>coalesce(nullif(btrim(x), ''), d)\<close>\<close>

definition trimmed_or :: "string option \<Rightarrow> string \<Rightarrow> string" where
  "trimmed_or x d = (case x of None \<Rightarrow> d | Some v \<Rightarrow> if sql_btrim v = [] then d else sql_btrim v)"

fun contains :: "string \<Rightarrow> string \<Rightarrow> bool" where
  "contains pat [] = (pat = [])"
| "contains pat (c # cs) = (take (length pat) (c # cs) = pat \<or> contains pat cs)"

text \<open>\<open>s ~* 'github\.com'\<close>: the text occurs in \<open>s\<close>, letters compared without case.\<close>

definition matches_github :: "string \<Rightarrow> bool" where
  "matches_github s = contains ''github.com'' (ascii_lower s)"

text \<open>
  \<open>regexp_replace(s, '.*[/:]([^/]+?)(?:\.git)?/?$', '\1')\<close>. A match runs from the start of
  \<open>s\<close> to its end, so the result is the captured group, and \<open>s\<close> itself when nothing
  matches. \<open>.*\<close> is greedy and comes first: it stops before the last \<open>/\<close> or \<open>:\<close> after
  which the rest still matches. The rest is \<open>([^/]+?)(?:\.git)?/?$\<close>: an optional final
  \<open>/\<close> is set aside, what is left must be non-empty without \<open>/\<close>, and the group, which
  is not greedy, leaves a final \<open>.git\<close> out when something remains before it.
\<close>

definition tail_capture :: "string \<Rightarrow> string option" where
  "tail_capture r =
     (let r' = (if r \<noteq> [] \<and> last r = CHR ''/'' then butlast r else r) in
      if r' = [] \<or> CHR ''/'' \<in> set r' then None
      else if length r' > 4 \<and> drop (length r' - 4) r' = ''.git'' then Some (take (length r' - 4) r')
      else Some r')"

fun last_segment :: "string \<Rightarrow> string option" where
  "last_segment [] = None"
| "last_segment (c # cs) =
     (case last_segment cs of
        Some g \<Rightarrow> Some g
      | None \<Rightarrow> if c = CHR ''/'' \<or> c = CHR '':'' then tail_capture cs else None)"

definition replace_with_segment :: "string \<Rightarrow> string" where
  "replace_with_segment s = (case last_segment s of None \<Rightarrow> s | Some g \<Rightarrow> g)"

text \<open>A path segment without a final \<open>.git\<close>, when something stands before it.\<close>

definition strip_git :: "string \<Rightarrow> string" where
  "strip_git seg =
     (if length seg > 4 \<and> drop (length seg - 4) seg = ''.git'' then take (length seg - 4) seg else seg)"

text \<open>\<open>regexp_replace(p, '.*/', '')\<close>: what follows the last \<open>/\<close>.\<close>

definition strip_directories :: "string \<Rightarrow> string" where
  "strip_directories p = rev (takeWhile (\<lambda>c. c \<noteq> CHR ''/'') (rev p))"

text \<open>\<open>regexp_replace(base, '\.(zip|tar|tgz|tar\.gz|tar\.bz2)$', '', 'i')\<close>: the leftmost
  match is the longest ending that is one of the five, whatever its case.\<close>

definition archive_extensions :: "string list" where
  "archive_extensions = [''.tar.bz2'', ''.tar.gz'', ''.zip'', ''.tar'', ''.tgz'']"

definition ends_with_ci :: "string \<Rightarrow> string \<Rightarrow> bool" where
  "ends_with_ci ext b = (length ext \<le> length b \<and> ascii_lower (drop (length b - length ext) b) = ext)"

definition strip_archive_extension :: "string \<Rightarrow> string" where
  "strip_archive_extension b =
     (case find (\<lambda>ext. ends_with_ci ext b) archive_extensions of
        None \<Rightarrow> b
      | Some ext \<Rightarrow> take (length b - length ext) b)"

text \<open>\<open>lower\<close> is \<open>ascii_lower\<close>: letters outside ASCII are left as they are.\<close>

definition derive_repo_name :: "string option \<Rightarrow> string option \<Rightarrow> string option \<Rightarrow> string" where
  "derive_repo_name source_uri storage_path fallback =
     (let s = trimmed_or source_uri [];
          p = trimmed_or storage_path []
      in if matches_github s then ascii_lower (replace_with_segment s)
         else if p \<noteq> [] \<and> strip_archive_extension (strip_directories p) \<noteq> []
         then ascii_lower (strip_archive_extension (strip_directories p))
         else ascii_lower (trimmed_or fallback ''repo''))"

record repo =
  repo_id :: "string option"
  repo_owner_user_id :: "uuid option"
  repo_source_type :: "string option"
  repo_source_uri :: "string option"
  repo_storage_path :: "string option"
  repo_name :: "string option"

text \<open>\<open>NEW.name IS NULL OR btrim(NEW.name) = ''\<close>\<close>

definition name_is_blank :: "string option \<Rightarrow> bool" where
  "name_is_blank n = (case n of None \<Rightarrow> True | Some v \<Rightarrow> sql_btrim v = [])"

definition repos_before_ins_upd_fill_name :: "repo \<Rightarrow> repo" where
  "repos_before_ins_upd_fill_name new =
     (if name_is_blank (repo_name new)
      then new\<lparr>repo_name := Some (derive_repo_name (repo_source_uri new) (repo_storage_path new) (repo_id new))\<rparr>
      else new)"

subsection \<open>The tables\<close>

record conversation =
  conversation_id :: uuid
  conversation_repo_id :: string

record message =
  message_id :: uuid
  message_conversation_id :: "uuid option"
  message_content :: string
  message_role :: string

record document =
  document_id :: uuid
  document_repo_id :: string
  document_checksum :: "string option"
  document_ingestion_status :: string

record document_chunk =
  chunk_id :: uuid
  chunk_document_id :: "uuid option"
  chunk_text :: string
  chunk_hash :: string
  chunk_index :: int
  chunk_embedding :: "real list option"
  chunk_embedding_model :: "string option"

record rag_query =
  query_id :: uuid
  query_conversation_id :: "uuid option"
  query_text :: string
  query_response_text :: "string option"

record retrieved_chunk =
  rc_id :: uuid
  rc_rag_query_id :: "uuid option"
  rc_document_chunk_id :: "uuid option"
  rc_score :: "real option"
  rc_rank :: "int option"
  rc_used_in_prompt :: bool

record database =
  repos :: "repo list"
  conversations :: "conversation list"
  messages :: "message list"
  documents :: "document list"
  document_chunks :: "document_chunk list"
  rag_queries :: "rag_query list"
  retrieved_chunks :: "retrieved_chunk list"

definition empty_database :: database where
  "empty_database =
     \<lparr>repos = [], conversations = [], messages = [], documents = [], document_chunks = [],
      rag_queries = [], retrieved_chunks = []\<rparr>"

text \<open>A reference is satisfied when it is \<open>NULL\<close> or names a key of the other table.\<close>

definition refers_to :: "uuid option \<Rightarrow> uuid list \<Rightarrow> bool" where
  "refers_to r keys = (case r of None \<Rightarrow> False | Some k \<Rightarrow> k \<in> set keys)"

definition reference_ok :: "uuid option \<Rightarrow> uuid list \<Rightarrow> bool" where
  "reference_ok r keys = (case r of None \<Rightarrow> True | Some k \<Rightarrow> k \<in> set keys)"

text \<open>\<open>integer\<close> is 32 bits wide.\<close>

definition int4_ok :: "int \<Rightarrow> bool" where
  "int4_ok n = (- (2 ^ 31) \<le> n \<and> n < 2 ^ 31)"

text \<open>\<open>embedding vector(1536)\<close>\<close>

definition embedding_dimension :: nat where
  "embedding_dimension = 1536"

subsection \<open>\<open>INSERT\<close>\<close>

text \<open>The row passes the \<open>BEFORE INSERT\<close> trigger, then the \<open>NOT NULL\<close> and \<open>CHECK\<close>
  constraints, the primary key and the unique index, where \<open>NULL\<close> owners never collide.\<close>

definition insert_repo :: "database \<Rightarrow> repo \<Rightarrow> db_error + database" where
  "insert_repo db new =
     (let row = repos_before_ins_upd_fill_name new in
      if repo_id row = None \<or> repo_source_type row = None \<or> repo_storage_path row = None \<or> repo_name row = None
      then Inl not_null_violation
      else if repo_source_type row \<noteq> Some ''git'' \<and> repo_source_type row \<noteq> Some ''upload''
      then Inl check_violation
      else if repo_id row \<in> set (map repo_id (repos db)) then Inl unique_violation
      else if repo_owner_user_id row \<noteq> None \<and>
              list_ex (\<lambda>r. repo_owner_user_id r = repo_owner_user_id row \<and> repo_name r = repo_name row) (repos db)
      then Inl unique_violation
      else Inr (db\<lparr>repos := repos db @ [row]\<rparr>))"

definition insert_conversation :: "database \<Rightarrow> conversation \<Rightarrow> db_error + database" where
  "insert_conversation db c =
     (if conversation_id c \<in> set (map conversation_id (conversations db)) then Inl unique_violation
      else if Some (conversation_repo_id c) \<notin> set (map repo_id (repos db)) then Inl foreign_key_violation
      else Inr (db\<lparr>conversations := conversations db @ [c]\<rparr>))"

definition insert_message :: "database \<Rightarrow> message \<Rightarrow> db_error + database" where
  "insert_message db m =
     (if message_role m \<notin> set [''user'', ''assistant'', ''system''] then Inl check_violation
      else if message_id m \<in> set (map message_id (messages db)) then Inl unique_violation
      else if \<not> reference_ok (message_conversation_id m) (map conversation_id (conversations db))
      then Inl foreign_key_violation
      else Inr (db\<lparr>messages := messages db @ [m]\<rparr>))"

definition insert_document :: "database \<Rightarrow> document \<Rightarrow> db_error + database" where
  "insert_document db d =
     (if document_id d \<in> set (map document_id (documents db)) then Inl unique_violation
      else if Some (document_repo_id d) \<notin> set (map repo_id (repos db)) then Inl foreign_key_violation
      else Inr (db\<lparr>documents := documents db @ [d]\<rparr>))"

text \<open>\<open>document_chunks\<close> has its primary key and two indexes, a GIN index on
  \<open>search_vector\<close> and the ivfflat index on \<open>embedding\<close>; neither is unique.\<close>

definition insert_document_chunk :: "database \<Rightarrow> document_chunk \<Rightarrow> db_error + database" where
  "insert_document_chunk db c =
     (if \<not> int4_ok (chunk_index c) then Inl data_exception
      else if chunk_embedding c \<noteq> None \<and> length (the (chunk_embedding c)) \<noteq> embedding_dimension
      then Inl data_exception
      else if chunk_id c \<in> set (map chunk_id (document_chunks db)) then Inl unique_violation
      else if \<not> reference_ok (chunk_document_id c) (map document_id (documents db))
      then Inl foreign_key_violation
      else Inr (db\<lparr>document_chunks := document_chunks db @ [c]\<rparr>))"

definition insert_rag_query :: "database \<Rightarrow> rag_query \<Rightarrow> db_error + database" where
  "insert_rag_query db q =
     (if query_id q \<in> set (map query_id (rag_queries db)) then Inl unique_violation
      else if \<not> reference_ok (query_conversation_id q) (map conversation_id (conversations db))
      then Inl foreign_key_violation
      else Inr (db\<lparr>rag_queries := rag_queries db @ [q]\<rparr>))"

definition insert_retrieved_chunk :: "database \<Rightarrow> retrieved_chunk \<Rightarrow> db_error + database" where
  "insert_retrieved_chunk db x =
     (if rc_rank x \<noteq> None \<and> \<not> int4_ok (the (rc_rank x)) then Inl data_exception
      else if rc_id x \<in> set (map rc_id (retrieved_chunks db)) then Inl unique_violation
      else if \<not> reference_ok (rc_rag_query_id x) (map query_id (rag_queries db))
      then Inl foreign_key_violation
      else if \<not> reference_ok (rc_document_chunk_id x) (map chunk_id (document_chunks db))
      then Inl foreign_key_violation
      else Inr (db\<lparr>retrieved_chunks := retrieved_chunks db @ [x]\<rparr>))"

text \<open>Several rows, one after the other; the first error aborts.\<close>

fun insert_retrieved_chunks :: "database \<Rightarrow> retrieved_chunk list \<Rightarrow> db_error + database" where
  "insert_retrieved_chunks db [] = Inr db"
| "insert_retrieved_chunks db (x # xs) =
     (case insert_retrieved_chunk db x of
        Inl err \<Rightarrow> Inl err
      | Inr db' \<Rightarrow> insert_retrieved_chunks db' xs)"

subsection \<open>\<open>UPDATE repos SET ... WHERE id = rid\<close>\<close>

text \<open>
  The assignments are applied to the row in turn. The trigger is declared
  \<open>BEFORE INSERT OR UPDATE OF source_uri, storage_path, name, id\<close>: it runs when one of
  these columns is assigned. The new row meets the constraints of an insert, and its
  identifier may change only when no conversation and no document references the old one.
\<close>

datatype repo_assignment =
    Set_id "string option"
  | Set_owner_user_id "uuid option"
  | Set_source_type "string option"
  | Set_source_uri "string option"
  | Set_storage_path "string option"
  | Set_name "string option"
  | Set_other_column

fun assign :: "repo_assignment \<Rightarrow> repo \<Rightarrow> repo" where
  "assign (Set_id v) r = r\<lparr>repo_id := v\<rparr>"
| "assign (Set_owner_user_id v) r = r\<lparr>repo_owner_user_id := v\<rparr>"
| "assign (Set_source_type v) r = r\<lparr>repo_source_type := v\<rparr>"
| "assign (Set_source_uri v) r = r\<lparr>repo_source_uri := v\<rparr>"
| "assign (Set_storage_path v) r = r\<lparr>repo_storage_path := v\<rparr>"
| "assign (Set_name v) r = r\<lparr>repo_name := v\<rparr>"
| "assign Set_other_column r = r"

fun fires_fill_name :: "repo_assignment \<Rightarrow> bool" where
  "fires_fill_name (Set_id v) = True"
| "fires_fill_name (Set_source_uri v) = True"
| "fires_fill_name (Set_storage_path v) = True"
| "fires_fill_name (Set_name v) = True"
| "fires_fill_name _ = False"

definition update_repo :: "database \<Rightarrow> string \<Rightarrow> repo_assignment list \<Rightarrow> db_error + database" where
  "update_repo db rid sets =
     (case find (\<lambda>r. repo_id r = Some rid) (repos db) of
        None \<Rightarrow> Inr db
      | Some old \<Rightarrow>
          (let new = fold assign sets old;
               row = (if list_ex fires_fill_name sets then repos_before_ins_upd_fill_name new else new);
               others = filter (\<lambda>r. repo_id r \<noteq> Some rid) (repos db)
           in if repo_id row = None \<or> repo_source_type row = None \<or> repo_storage_path row = None \<or> repo_name row = None
              then Inl not_null_violation
              else if repo_source_type row \<noteq> Some ''git'' \<and> repo_source_type row \<noteq> Some ''upload''
              then Inl check_violation
              else if repo_id row \<in> set (map repo_id others) then Inl unique_violation
              else if repo_owner_user_id row \<noteq> None \<and>
                      list_ex (\<lambda>r. repo_owner_user_id r = repo_owner_user_id row \<and> repo_name r = repo_name row) others
              then Inl unique_violation
              else if repo_id row \<noteq> Some rid \<and>
                      (list_ex (\<lambda>c. conversation_repo_id c = rid) (conversations db) \<or>
                       list_ex (\<lambda>d. document_repo_id d = rid) (documents db))
              then Inl foreign_key_violation
              else Inr (db\<lparr>repos := map (\<lambda>r. if repo_id r = Some rid then row else r) (repos db)\<rparr>)))"

subsection \<open>\<open>DELETE FROM repos WHERE id = rid\<close>\<close>

text \<open>
  The references that say \<open>ON DELETE CASCADE\<close> carry the delete on: \<open>conversations\<close> and
  \<open>documents\<close> by \<open>repo_id\<close>, \<open>messages\<close> and \<open>rag_queries\<close> by \<open>conversation_id\<close>,
  \<open>document_chunks\<close> by \<open>document_id\<close>, \<open>retrieved_chunks\<close> by \<open>rag_query_id\<close>.
  \<open>retrieved_chunks.document_chunk_id\<close> names no action: when a row that the cascade
  leaves still references a chunk that it removes, the statement fails and nothing is
  deleted. Deleting an identifier that is not there deletes no row.
\<close>

definition delete_repo :: "database \<Rightarrow> string \<Rightarrow> db_error + database" where
  "delete_repo db rid =
     (if Some rid \<notin> set (map repo_id (repos db)) then Inr db
      else
        (let conv_ids = map conversation_id (filter (\<lambda>c. conversation_repo_id c = rid) (conversations db));
             doc_ids = map document_id (filter (\<lambda>d. document_repo_id d = rid) (documents db));
             query_ids = map query_id (filter (\<lambda>q. refers_to (query_conversation_id q) conv_ids) (rag_queries db));
             chunk_ids = map chunk_id (filter (\<lambda>c. refers_to (chunk_document_id c) doc_ids) (document_chunks db));
             kept = filter (\<lambda>x. \<not> refers_to (rc_rag_query_id x) query_ids) (retrieved_chunks db)
         in if list_ex (\<lambda>x. refers_to (rc_document_chunk_id x) chunk_ids) kept then Inl foreign_key_violation
            else Inr
              \<lparr>repos = filter (\<lambda>r. repo_id r \<noteq> Some rid) (repos db),
               conversations = filter (\<lambda>c. conversation_repo_id c \<noteq> rid) (conversations db),
               messages = filter (\<lambda>m. \<not> refers_to (message_conversation_id m) conv_ids) (messages db),
               documents = filter (\<lambda>d. document_repo_id d \<noteq> rid) (documents db),
               document_chunks = filter (\<lambda>c. \<not> refers_to (chunk_document_id c) doc_ids) (document_chunks db),
               rag_queries = filter (\<lambda>q. \<not> refers_to (query_conversation_id q) conv_ids) (rag_queries db),
               retrieved_chunks = kept\<rparr>))"

text \<open>A statement that fails leaves the database as it was.\<close>

definition after :: "database \<Rightarrow> db_error + database \<Rightarrow> database" where
  "after db r = (case r of Inl _ \<Rightarrow> db | Inr db' \<Rightarrow> db')"

subsection \<open>The vector index\<close>

text \<open>\<open>CREATE INDEX idx_document_chunks_embedding ON document_chunks USING
  ivfflat(embedding vector_l2_ops) WITH (lists = 100)\<close>. The operator class of an index
  fixes the distance it is built for.\<close>

record index_def =
  index_name :: string
  index_table :: string
  index_method :: string
  index_column :: string
  index_opclass :: "string option"
  index_unique :: bool

definition idx_document_chunks_embedding :: index_def where
  "idx_document_chunks_embedding =
     \<lparr>index_name = ''idx_document_chunks_embedding'', index_table = ''document_chunks'',
      index_method = ''ivfflat'', index_column = ''embedding'',
      index_opclass = Some ''vector_l2_ops'', index_unique = False\<rparr>"

definition idx_document_chunks_search_vector :: index_def where
  "idx_document_chunks_search_vector =
     \<lparr>index_name = ''idx_document_chunks_search_vector'', index_table = ''document_chunks'',
      index_method = ''gin'', index_column = ''search_vector'',
      index_opclass = None, index_unique = False\<rparr>"

datatype distance_metric = L2 | Inner_product | Cosine

definition opclass_metric :: "string \<Rightarrow> distance_metric option" where
  "opclass_metric oc =
     (if oc = ''vector_l2_ops'' then Some L2
      else if oc = ''vector_ip_ops'' then Some Inner_product
      else if oc = ''vector_cosine_ops'' then Some Cosine
      else None)"

definition index_metric :: "index_def \<Rightarrow> distance_metric option" where
  "index_metric ix = (case index_opclass ix of None \<Rightarrow> None | Some oc \<Rightarrow> opclass_metric oc)"


subsection \<open>What the claims say of the stored rows\<close>

text \<open>Among the chunks of a document no two rows share \<open>(document_id, chunk_index)\<close>,
  and no two share \<open>(document_id, chunk_hash)\<close>.\<close>

text \<open>Every stored repository has a name that is not empty.\<close>

definition names_filled :: "database \<Rightarrow> bool" where
  "names_filled db = list_all (\<lambda>r. repo_name r \<noteq> None \<and> repo_name r \<noteq> Some []) (repos db)"

definition chunk_pairs_unique :: "database \<Rightarrow> bool" where
  "chunk_pairs_unique db =
     (let rows = filter (\<lambda>c. chunk_document_id c \<noteq> None) (document_chunks db) in
      distinct (map (\<lambda>c. (chunk_document_id c, chunk_index c)) rows) \<and>
      distinct (map (\<lambda>c. (chunk_document_id c, chunk_hash c)) rows))"

text \<open>Every stored embedding has the declared dimension.\<close>

definition dimensions_fixed :: "database \<Rightarrow> bool" where
  "dimensions_fixed db =
     list_all (\<lambda>c. chunk_embedding c = None \<or> length (the (chunk_embedding c)) = embedding_dimension)
       (document_chunks db)"

text \<open>Every stored embedding comes with the name of its model.\<close>

definition embeddings_tagged :: "database \<Rightarrow> bool" where
  "embeddings_tagged db =
     list_all (\<lambda>c. chunk_embedding c = None \<or> chunk_embedding_model c \<noteq> None) (document_chunks db)"

text \<open>The ranks of the rows of a query that were used in the prompt, in table order; they are
  contiguous when they are distinct and are the numbers \<open>1..N\<close>.\<close>

definition used_ranks :: "database \<Rightarrow> uuid \<Rightarrow> int option list" where
  "used_ranks db q =
     map rc_rank (filter (\<lambda>x. rc_rag_query_id x = Some q \<and> rc_used_in_prompt x) (retrieved_chunks db))"

definition ranks_contiguous :: "int option list \<Rightarrow> bool" where
  "ranks_contiguous rs = (distinct rs \<and> set rs = set (map (\<lambda>i. Some (int i)) [1..<Suc (length rs)]))"

text \<open>The keys of what belongs to a repository: its conversations and documents, the queries
  of its conversations, the chunks of its documents.\<close>

definition repo_conversations :: "database \<Rightarrow> string \<Rightarrow> uuid list" where
  "repo_conversations db rid = map conversation_id (filter (\<lambda>c. conversation_repo_id c = rid) (conversations db))"

definition repo_documents :: "database \<Rightarrow> string \<Rightarrow> uuid list" where
  "repo_documents db rid = map document_id (filter (\<lambda>d. document_repo_id d = rid) (documents db))"

definition repo_queries :: "database \<Rightarrow> string \<Rightarrow> uuid list" where
  "repo_queries db rid =
     map query_id (filter (\<lambda>q. refers_to (query_conversation_id q) (repo_conversations db rid)) (rag_queries db))"

definition repo_chunks :: "database \<Rightarrow> string \<Rightarrow> uuid list" where
  "repo_chunks db rid =
     map chunk_id (filter (\<lambda>c. refers_to (chunk_document_id c) (repo_documents db rid)) (document_chunks db))"

section \<open>The delete-repository operation\<close>





section \<open>Concrete inputs\<close>

text \<open>The inputs at which the theorems below are instantiated.\<close>


definition brief_a :: RepoBrief where
  "brief_a = \<lparr>brief_id = ''r1'', brief_label = ''alpha'', brief_source_type = Some ''git''\<rparr>"

definition brief_b :: RepoBrief where
  "brief_b = \<lparr>brief_id = ''r2'', brief_label = ''beta'', brief_source_type = Some ''upload''\<rparr>"

definition briefs_ab :: "RepoBrief list option" where
  "briefs_ab = Some [brief_a, brief_b]"

definition names_a :: "(string \<times> string) list option" where
  "names_a = Some [(''r1'', ''alpha'')]"

definition err404 :: js_error where
  "err404 = JsError ''Request failed with status code 404'' (Some 404)"

definition err500 :: js_error where
  "err500 = JsError ''Request failed with status code 500'' (Some 500)"


definition convo_zero_id :: "jsval option" where
  "convo_zero_id = Some (JObj [(''id'', JNum 0), (''repo_id'', JStr ''r1'')])"

definition convo_camel :: "jsval option" where
  "convo_camel = Some (JObj [(''conversationId'', JStr ''c7''), (''repoId'', JNum 12), (''title'', JStr ''Setup'')])"


definition storage_full :: local_storage where
  "storage_full = \<lparr>ls_items = Map.empty, ls_denied = False, ls_full = True\<rparr>"

definition storage_c1 :: local_storage where
  "storage_c1 = \<lparr>ls_items = [ctxKey ''c1'' \<mapsto> JsonText (JObj [(''m0'', JArr [])])], ls_denied = False, ls_full = False\<rparr>"

definition ctx_m1 :: "(string \<times> jsval) list" where
  "ctx_m1 = [(''m1'', JArr [JObj [(''filename'', JStr ''a.py'')]])]"


definition network_error :: js_error where
  "network_error = JsError ''Network Error'' None"

definition env_down :: ask_env where
  "env_down =
     \<lparr>env_status = Inl network_error, env_conversation = Inl network_error,
      env_user_message = Inl network_error, env_answer = Inl network_error,
      env_assistant_message = Inl network_error, env_now = 5\<rparr>"

definition status_indexing :: RepoStatus where
  "status_indexing = \<lparr>status_repoId = ''r1'', status_label = Some ''indexing'', status_documents = Some 0\<rparr>"

definition status_done :: RepoStatus where
  "status_done = \<lparr>status_repoId = ''r1'', status_label = Some ''Done'', status_documents = None\<rparr>"

definition env_up :: ask_env where
  "env_up =
     \<lparr>env_status = Inr (Some status_done),
      env_conversation = Inr (Some \<lparr>conv_id = ''c1'', conv_repo_id = ''r1'', conv_title = JNull,
                                   conv_created_at = JNull, conv_updated_at = JNull, conv_latest_question = JNull\<rparr>),
      env_user_message = Inr None,
      env_answer = Inr \<lparr>answer_text = ''It parses files.'', answer_contexts = None\<rparr>,
      env_assistant_message = Inr None, env_now = 5\<rparr>"

definition state_unready :: chat_state where
  "state_unready = select_repo initial_state ''r1'' (Inl network_error)"

definition env_indexing :: ask_env where
  "env_indexing = env_up\<lparr>env_status := Inr (Some status_indexing)\<rparr>"

definition state_done :: chat_state where
  "state_done = select_repo initial_state ''r1'' (Inr (Some status_done))"

definition state_indexing :: chat_state where
  "state_indexing = select_repo initial_state ''r1'' (Inr (Some status_indexing))"


definition row_upload :: repo where
  "row_upload =
     \<lparr>repo_id = Some ''Repo-A'', repo_owner_user_id = None, repo_source_type = Some ''upload'',
      repo_source_uri = None, repo_storage_path = Some ''/data/uploads/Demo.ZIP'', repo_name = None\<rparr>"

definition row_bare :: repo where
  "row_bare =
     \<lparr>repo_id = Some ''Repo-A'', repo_owner_user_id = None, repo_source_type = Some ''upload'',
      repo_source_uri = None, repo_storage_path = Some '''', repo_name = Some ''  ''\<rparr>"

definition row_named :: repo where
  "row_named =
     \<lparr>repo_id = Some ''r-78'', repo_owner_user_id = None, repo_source_type = Some ''upload'',
      repo_source_uri = None, repo_storage_path = Some ''/data/uploads/x.zip'', repo_name = Some ''My Repo''\<rparr>"

definition row_git :: repo where
  "row_git =
     \<lparr>repo_id = Some ''r-77'', repo_owner_user_id = None, repo_source_type = Some ''git'',
      repo_source_uri = Some ''https://GitHub.com/AILab-FOI/ByteSophos.git'',
      repo_storage_path = Some ''/data/repos/r-77'', repo_name = None\<rparr>"

definition db_git :: database where
  "db_git = empty_database\<lparr>repos := [row_git\<lparr>repo_name := Some ''bytesophos''\<rparr>]\<rparr>"


definition row_r1 :: repo where
  "row_r1 =
     \<lparr>repo_id = Some ''r1'', repo_owner_user_id = None, repo_source_type = Some ''upload'',
      repo_source_uri = None, repo_storage_path = Some ''/data/uploads/r1'', repo_name = Some ''r1''\<rparr>"

definition doc_10 :: document where
  "doc_10 = \<lparr>document_id = 10, document_repo_id = ''r1'', document_checksum = Some ''sha-a'',
             document_ingestion_status = ''ingested''\<rparr>"

definition chunk_100 :: document_chunk where
  "chunk_100 =
     \<lparr>chunk_id = 100, chunk_document_id = Some 10, chunk_text = ''def f(): pass'', chunk_hash = ''h0'',
      chunk_index = 0, chunk_embedding = None, chunk_embedding_model = None\<rparr>"

definition chunk_101 :: document_chunk where
  "chunk_101 = chunk_100\<lparr>chunk_id := 101\<rparr>"

definition chunk_untagged :: document_chunk where
  "chunk_untagged =
     \<lparr>chunk_id = 102, chunk_document_id = Some 10, chunk_text = ''x = 1'', chunk_hash = ''h1'',
      chunk_index = 1, chunk_embedding = Some (replicate 1536 0), chunk_embedding_model = None\<rparr>"

definition chunk_short :: document_chunk where
  "chunk_short = chunk_untagged\<lparr>chunk_embedding := Some [0, 1, 0], chunk_embedding_model := Some ''text-embedding-3-small''\<rparr>"

definition query_200 :: rag_query where
  "query_200 = \<lparr>query_id = 200, query_conversation_id = None, query_text = ''What does f do?'',
               query_response_text = Some ''Nothing.''\<rparr>"

definition rc_300 :: retrieved_chunk where
  "rc_300 = \<lparr>rc_id = 300, rc_rag_query_id = Some 200, rc_document_chunk_id = Some 100, rc_score = Some 1,
            rc_rank = Some 1, rc_used_in_prompt = True\<rparr>"

definition rc_301 :: retrieved_chunk where
  "rc_301 = rc_300\<lparr>rc_id := 301\<rparr>"

definition rc_302 :: retrieved_chunk where
  "rc_302 = rc_300\<lparr>rc_id := 302, rc_rank := Some 2\<rparr>"

definition rc_303 :: retrieved_chunk where
  "rc_303 = rc_300\<lparr>rc_id := 303, rc_rank := Some 3, rc_used_in_prompt := False\<rparr>"

definition db_repo :: database where
  "db_repo = empty_database\<lparr>repos := [row_r1]\<rparr>"

definition db_doc :: database where
  "db_doc = db_repo\<lparr>documents := [doc_10]\<rparr>"

definition db_chunk :: database where
  "db_chunk = db_doc\<lparr>document_chunks := [chunk_100]\<rparr>"

definition db_query :: database where
  "db_query = db_chunk\<lparr>rag_queries := [query_200]\<rparr>"

definition db_audit :: database where
  "db_audit = db_query\<lparr>retrieved_chunks := [rc_300]\<rparr>"

definition db_chunk_twice :: database where
  "db_chunk_twice = db_doc\<lparr>document_chunks := [chunk_100, chunk_101]\<rparr>"

definition db_untagged :: database where
  "db_untagged = db_doc\<lparr>document_chunks := [chunk_untagged]\<rparr>"

definition db_rank_twice :: database where
  "db_rank_twice = db_query\<lparr>retrieved_chunks := [rc_300, rc_301]\<rparr>"

definition db_ranked :: database where
  "db_ranked = db_query\<lparr>retrieved_chunks := [rc_300, rc_302, rc_303]\<rparr>"

definition row_r2 :: repo where
  "row_r2 = row_r1\<lparr>repo_id := Some ''r2'', repo_storage_path := Some ''/data/uploads/r2'', repo_name := Some ''r2''\<rparr>"

definition db_full :: database where
  "db_full =
     \<lparr>repos = [row_r1, row_r2],
      conversations = [\<lparr>conversation_id = 20, conversation_repo_id = ''r1''\<rparr>],
      messages = [\<lparr>message_id = 30, message_conversation_id = Some 20, message_content = ''What does f do?'',
                  message_role = ''user''\<rparr>],
      documents = [doc_10, doc_10\<lparr>document_id := 11, document_repo_id := ''r2''\<rparr>],
      document_chunks = [chunk_100, chunk_100\<lparr>chunk_id := 110, chunk_document_id := Some 11\<rparr>],
      rag_queries = [query_200\<lparr>query_id := 201, query_conversation_id := Some 20\<rparr>],
      retrieved_chunks = [rc_300\<lparr>rc_id := 304, rc_rag_query_id := Some 201\<rparr>]\<rparr>"

definition db_rest :: database where
  "db_rest =
     \<lparr>repos = [row_r2], conversations = [], messages = [],
      documents = [doc_10\<lparr>document_id := 11, document_repo_id := ''r2''\<rparr>],
      document_chunks = [chunk_100\<lparr>chunk_id := 110, chunk_document_id := Some 11\<rparr>],
      rag_queries = [], retrieved_chunks = []\<rparr>"









section \<open>Properties\<close>

subsection \<open>Repository briefs\<close>

lemma fold_upd_eq:
  "fold (\<lambda>r m. m(k r \<mapsto> v r)) rs m0 = m0 ++ map_of (rev (map (\<lambda>r. (k r, v r)) rs))"
proof (induction rs arbitrary: m0)
  case Nil show ?case by simp
next
  case (Cons a rs)
  have "fold (\<lambda>r m. m(k r \<mapsto> v r)) (a # rs) m0 = fold (\<lambda>r m. m(k r \<mapsto> v r)) rs (m0(k a \<mapsto> v a))"
    by (simp del: fun_upd_apply)
  also have "\<dots> = (m0(k a \<mapsto> v a)) ++ map_of (rev (map (\<lambda>r. (k r, v r)) rs))"
    by (rule Cons.IH)
  also have "\<dots> = m0 ++ map_of (rev (map (\<lambda>r. (k r, v r)) (a # rs)))"
    by (simp add: map_of_append map_add_assoc [symmetric] map_add_upd_left fun_eq_iff map_add_def split: option.splits)
  finally show ?case .
qed

lemma fold_upd_dom:
  "dom (fold (\<lambda>r m. m(k r \<mapsto> v r)) rs m0) = dom m0 \<union> k ` set rs"
  by (auto simp: fold_upd_eq dom_map_of_conv_image_fst image_image)

lemma fold_upd_range:
  "fold (\<lambda>r m. m(k r \<mapsto> v r)) rs m0 x = Some y \<Longrightarrow>
     m0 x = Some y \<or> (\<exists>r\<in>set rs. k r = x \<and> v r = y)"
  by (auto simp: fold_upd_eq map_add_Some_iff dest!: map_of_SomeD)

lemma fold_upd_distinct:
  "distinct (map k rs) \<Longrightarrow> r \<in> set rs \<Longrightarrow> fold (\<lambda>r m. m(k r \<mapsto> v r)) rs m0 (k r) = Some (v r)"
proof -
  assume d: "distinct (map k rs)" and r: "r \<in> set rs"
  have "distinct (map fst (rev (map (\<lambda>r. (k r, v r)) rs)))"
    using d by (simp add: rev_map [symmetric] comp_def)
  moreover have "(k r, v r) \<in> set (rev (map (\<lambda>r. (k r, v r)) rs))" using r by auto
  ultimately have "map_of (rev (map (\<lambda>r. (k r, v r)) rs)) (k r) = Some (v r)"
    by (rule map_of_is_SomeI)
  then show ?thesis by (simp add: fold_upd_eq map_add_Some_iff)
qed

lemma names_fold:
  "fold (\<lambda>(i, l) m. m(i \<mapsto> \<lparr>brief_id = i, brief_label = l, brief_source_type = None\<rparr>)) names m0
     = fold (\<lambda>e m. m(fst e \<mapsto> brief_of_name e)) names m0"
proof -
  have "(\<lambda>(i, l) m. m(i \<mapsto> \<lparr>brief_id = i, brief_label = l, brief_source_type = None\<rparr>))
          = (\<lambda>e m. m(fst e \<mapsto> brief_of_name e))"
    by (auto simp: fun_eq_iff brief_of_name_def)
  then show ?thesis by simp
qed

text \<open>
  C10. \<open>getRepoBriefs\<close>: when the briefs request succeeds the result is a map whose keys
  are the ids of the returned briefs, each value a returned brief with that id, and each
  brief stands at its id when the ids are distinct; when the request fails with status
  404 the names listing is asked, and (when that succeeds) the result has one entry per
  listed id, a brief with that id and the listed name as its label; a failure with any
  other status, or with none, is rethrown.
\<close>

theorem getRepoBriefs_outcomes:
  "(\<exists>m. getRepoBriefs (Inr d) names_res = Inr m
        \<and> dom m = brief_id ` set (data_or_empty d)
        \<and> (\<forall>k r. m k = Some r \<longrightarrow> r \<in> set (data_or_empty d) \<and> brief_id r = k)
        \<and> (distinct (map brief_id (data_or_empty d)) \<longrightarrow> (\<forall>r \<in> set (data_or_empty d). m (brief_id r) = Some r)))
   \<and> (err_status err = Some 404 \<longrightarrow>
        (\<exists>m. getRepoBriefs (Inl err) (Inr nd) = Inr m
           \<and> dom m = fst ` set (data_or_empty nd)
           \<and> (\<forall>k r. m k = Some r \<longrightarrow> brief_id r = k \<and> (k, brief_label r) \<in> set (data_or_empty nd))
           \<and> (distinct (map fst (data_or_empty nd)) \<longrightarrow>
                (\<forall>e \<in> set (data_or_empty nd). m (fst e) = Some (brief_of_name e))))
        \<and> getRepoBriefs (Inl err) (Inl err2) = Inl err2)
   \<and> (err_status err \<noteq> Some 404 \<longrightarrow> getRepoBriefs (Inl err) names_res = Inl err)"
proof (intro conjI impI)
  let ?rs = "data_or_empty d"
  let ?m = "fold (\<lambda>r m. m(brief_id r \<mapsto> r)) ?rs Map.empty"
  have "getRepoBriefs (Inr d) names_res = Inr ?m" by (simp add: getRepoBriefs_def)
  moreover have "dom ?m = brief_id ` set ?rs" by (simp add: fold_upd_dom)
  moreover have "\<forall>k r. ?m k = Some r \<longrightarrow> r \<in> set ?rs \<and> brief_id r = k"
    using fold_upd_range [of brief_id "\<lambda>r. r" ?rs Map.empty] by auto
  moreover have "distinct (map brief_id ?rs) \<longrightarrow> (\<forall>r \<in> set ?rs. ?m (brief_id r) = Some r)"
    using fold_upd_distinct [of brief_id ?rs _ "\<lambda>r. r" Map.empty] by blast
  ultimately show "\<exists>m. getRepoBriefs (Inr d) names_res = Inr m
        \<and> dom m = brief_id ` set ?rs
        \<and> (\<forall>k r. m k = Some r \<longrightarrow> r \<in> set ?rs \<and> brief_id r = k)
        \<and> (distinct (map brief_id ?rs) \<longrightarrow> (\<forall>r \<in> set ?rs. m (brief_id r) = Some r))"
    by blast
next
  assume s: "err_status err = Some 404"
  let ?ns = "data_or_empty nd"
  let ?m = "fold (\<lambda>e m. m(fst e \<mapsto> brief_of_name e)) ?ns Map.empty"
  have "getRepoBriefs (Inl err) (Inr nd) = Inr ?m"
    using s by (simp add: getRepoBriefs_def getRepoNames_def names_fold)
  moreover have "dom ?m = fst ` set ?ns" by (simp add: fold_upd_dom)
  moreover have "\<forall>k r. ?m k = Some r \<longrightarrow> brief_id r = k \<and> (k, brief_label r) \<in> set ?ns"
  proof (intro allI impI)
    fix k r assume "?m k = Some r"
    then obtain e where "e \<in> set ?ns" "fst e = k" "brief_of_name e = r"
      using fold_upd_range [of fst brief_of_name ?ns Map.empty k r] by auto
    then show "brief_id r = k \<and> (k, brief_label r) \<in> set ?ns"
      by (cases e) (auto simp: brief_of_name_def)
  qed
  moreover have "distinct (map fst ?ns) \<longrightarrow> (\<forall>e \<in> set ?ns. ?m (fst e) = Some (brief_of_name e))"
    using fold_upd_distinct [of fst ?ns _ brief_of_name Map.empty] by blast
  ultimately show "\<exists>m. getRepoBriefs (Inl err) (Inr nd) = Inr m
           \<and> dom m = fst ` set ?ns
           \<and> (\<forall>k r. m k = Some r \<longrightarrow> brief_id r = k \<and> (k, brief_label r) \<in> set ?ns)
           \<and> (distinct (map fst ?ns) \<longrightarrow> (\<forall>e \<in> set ?ns. m (fst e) = Some (brief_of_name e)))"
    by blast
next
  assume "err_status err = Some 404"
  then show "getRepoBriefs (Inl err) (Inl err2) = Inl err2"
    by (simp add: getRepoBriefs_def getRepoNames_def)
next
  assume "err_status err \<noteq> Some 404"
  then show "getRepoBriefs (Inl err) names_res = Inl err"
    by (simp add: getRepoBriefs_def)
qed

theorem getRepoBriefs_outcomes_witness:
  "(\<exists>m. getRepoBriefs (Inr briefs_ab) (Inr None) = Inr m
        \<and> m ''r1'' = Some brief_a \<and> m ''r2'' = Some brief_b \<and> dom m = {''r1'', ''r2''})
   \<and> (\<exists>m. getRepoBriefs (Inl err404) (Inr names_a) = Inr m
        \<and> m ''r1'' = Some \<lparr>brief_id = ''r1'', brief_label = ''alpha'', brief_source_type = None\<rparr>)
   \<and> getRepoBriefs (Inl err500) (Inr None) = Inl err500"
proof -
  note t = getRepoBriefs_outcomes [of briefs_ab "Inr None" err404 names_a err500]
  have d1: "distinct (map brief_id (data_or_empty briefs_ab))"
    by (simp add: data_or_empty_def briefs_ab_def brief_a_def brief_b_def)
  have d2: "distinct (map fst (data_or_empty names_a))"
    by (simp add: data_or_empty_def names_a_def)
  have s: "err_status err404 = Some 404" by (simp add: err404_def)
  from t [THEN conjunct1] obtain m where m: "getRepoBriefs (Inr briefs_ab) (Inr None) = Inr m"
      "dom m = brief_id ` set (data_or_empty briefs_ab)"
      "distinct (map brief_id (data_or_empty briefs_ab)) \<longrightarrow>
         (\<forall>r \<in> set (data_or_empty briefs_ab). m (brief_id r) = Some r)"
    by (elim exE conjE)
  from m(3) d1 have "m (brief_id brief_a) = Some brief_a" "m (brief_id brief_b) = Some brief_b"
    by (simp_all add: data_or_empty_def briefs_ab_def)
  then have a: "m ''r1'' = Some brief_a" "m ''r2'' = Some brief_b"
    by (simp_all add: brief_a_def brief_b_def)
  have b: "dom m = {''r1'', ''r2''}"
    using m(2) by (simp add: data_or_empty_def briefs_ab_def brief_a_def brief_b_def)
  from t [THEN conjunct2, THEN conjunct1, THEN mp, OF s, THEN conjunct1]
  obtain m' where m': "getRepoBriefs (Inl err404) (Inr names_a) = Inr m'"
      "distinct (map fst (data_or_empty names_a)) \<longrightarrow>
         (\<forall>e \<in> set (data_or_empty names_a). m' (fst e) = Some (brief_of_name e))"
    by (elim exE conjE)
  from m'(2) d2 have c: "m' ''r1'' = Some \<lparr>brief_id = ''r1'', brief_label = ''alpha'', brief_source_type = None\<rparr>"
    by (simp add: data_or_empty_def brief_of_name_def names_a_def)
  have n: "err_status err500 \<noteq> Some 404" by (simp add: err500_def)
  have e: "getRepoBriefs (Inl err500) (Inr None) = Inl err500"
    by (rule getRepoBriefs_outcomes [of briefs_ab "Inr None" err500 names_a err500,
          THEN conjunct2, THEN conjunct2, THEN mp, OF n])
  show ?thesis
  proof (intro conjI)
    show "\<exists>m. getRepoBriefs (Inr briefs_ab) (Inr None) = Inr m
        \<and> m ''r1'' = Some brief_a \<and> m ''r2'' = Some brief_b \<and> dom m = {''r1'', ''r2''}"
      using m(1) a b by (intro exI [of _ m] conjI)
    show "\<exists>m. getRepoBriefs (Inl err404) (Inr names_a) = Inr m
        \<and> m ''r1'' = Some \<lparr>brief_id = ''r1'', brief_label = ''alpha'', brief_source_type = None\<rparr>"
      using m'(1) c by (intro exI [of _ m'] conjI)
    show "getRepoBriefs (Inl err500) (Inr None) = Inl err500" by (rule e)
  qed
qed

subsection \<open>Conversation records\<close>

lemma nc_not_nullish: "\<not> nullish a \<Longrightarrow> nc a b = a"
  by (simp add: nc_def)

lemma nc_nullish: "nullish a \<Longrightarrow> nc a b = b"
  by (simp add: nc_def)

lemma or_null_Some: "\<not> nullish v \<Longrightarrow> Some (or_null v) = v"
  by (cases v) (simp_all add: nullish_def or_null_def)

lemma raw_id_first_present: "raw_id raw = Some (first_present raw id_keys)"
  unfolding raw_id_def first_present_def id_keys_def
  by (cases "nullish (get_prop raw ''id'')"; cases "nullish (get_prop raw ''conversation_id'')";
      cases "nullish (get_prop raw ''conversationId'')"; cases "nullish (get_prop raw ''pk'')")
     (simp_all add: nc_not_nullish nc_nullish or_null_Some)

lemma raw_repo_id_first_present: "raw_repo_id raw = Some (first_present raw repo_keys)"
  unfolding raw_repo_id_def first_present_def repo_keys_def
  by (cases "nullish (get_prop raw ''repo_id'')"; cases "nullish (get_prop raw ''repoId'')";
      cases "nullish (get_prop raw ''repository_id'')")
     (simp_all add: nc_not_nullish nc_nullish or_null_Some)

lemma normalizeConvo_None:
  "(normalizeConvo raw = None) = (\<not> truthy (first_present raw id_keys) \<or> \<not> truthy (first_present raw repo_keys))"
  by (simp add: normalizeConvo_def Let_def raw_id_first_present raw_repo_id_first_present js_not_def)

lemma normalizeConvo_Some:
  "normalizeConvo raw = Some c \<Longrightarrow>
     conv_id c = js_String (first_present raw id_keys) \<and> conv_repo_id c = js_String (first_present raw repo_keys)"
  by (auto simp add: normalizeConvo_def Let_def raw_id_first_present raw_repo_id_first_present or_null_def
      split: if_splits)

lemma map_Some_normalize_rows:
  "map Some (normalize_rows d) = filter (\<lambda>c. c \<noteq> None) (map (\<lambda>x. normalizeConvo (Some x)) (data_or_empty d))"
proof -
  have "map Some (map the (filter (\<lambda>c. c \<noteq> None) xs)) = filter (\<lambda>c. c \<noteq> None) xs" for xs :: "Conversation option list"
    by (induction xs) auto
  then show ?thesis by (simp add: normalize_rows_def)
qed

text \<open>
  C8, as the code has it. \<open>normalizeConvo\<close> returns \<open>null\<close> exactly when the first
  identifier field that is neither missing nor \<open>null\<close> (of \<open>id\<close>, \<open>conversation_id\<close>,
  \<open>conversationId\<close>, \<open>pk\<close>), or the first such repository field (of \<open>repo_id\<close>,
  \<open>repoId\<close>, \<open>repository_id\<close>), is absent or falsy (\<open>0\<close>, the empty string, \<open>false\<close>);
  otherwise the conversation's \<open>id\<close> and \<open>repo_id\<close> are the string forms of these first
  present fields. \<open>listConversations\<close>, from either request, returns the normalized
  records that are not \<open>null\<close>, in order.
\<close>

theorem normalizeConvo_null_iff:
  "(normalizeConvo raw = None)
      = (\<not> truthy (first_present raw id_keys) \<or> \<not> truthy (first_present raw repo_keys))
   \<and> (\<forall>c. normalizeConvo raw = Some c \<longrightarrow>
          conv_id c = js_String (first_present raw id_keys)
        \<and> conv_repo_id c = js_String (first_present raw repo_keys))
   \<and> (\<exists>cs. listConversations (Inr d) res2 = Inr cs
          \<and> map Some cs = filter (\<lambda>c. c \<noteq> None) (map (\<lambda>x. normalizeConvo (Some x)) (data_or_empty d)))
   \<and> (\<exists>cs. listConversations (Inl err) (Inr d) = Inr cs
          \<and> map Some cs = filter (\<lambda>c. c \<noteq> None) (map (\<lambda>x. normalizeConvo (Some x)) (data_or_empty d)))"
  using normalizeConvo_None [of raw] normalizeConvo_Some [of raw]
  by (simp add: listConversations_def map_Some_normalize_rows)

lemma first_present_camel:
  "first_present convo_camel id_keys = JStr ''c7''" "first_present convo_camel repo_keys = JNum 12"
  by (simp_all add: first_present_def convo_camel_def id_keys_def repo_keys_def nullish_def or_null_def)

theorem normalizeConvo_null_iff_witness:
  "(\<exists>c. normalizeConvo convo_camel = Some c \<and> conv_id c = ''c7'' \<and> conv_repo_id c = ''12'')"
proof -
  note t = normalizeConvo_null_iff [of convo_camel None "Inr None" err404]
  have "normalizeConvo convo_camel \<noteq> None"
    using t [THEN conjunct1] by (simp add: first_present_camel)
  then obtain c where c: "normalizeConvo convo_camel = Some c" by blast
  with t [THEN conjunct2, THEN conjunct1] have "conv_id c = js_String (JStr ''c7'')" "conv_repo_id c = js_String (JNum 12)"
    by (simp_all add: first_present_camel)
  then have "conv_id c = ''c7''" "conv_repo_id c = ''12''"
    by (simp_all add: digits.simps digit_char_def)
  with c show ?thesis by blast
qed

text \<open>
  C8 as stated fails: a record whose \<open>id\<close> is the number \<open>0\<close> has an identifier field and
  a repository field, and is normalized to \<open>null\<close>.
\<close>

theorem normalizeConvo_null_counterexample:
  "normalizeConvo convo_zero_id = None
   \<and> \<not> lacks_all convo_zero_id id_keys \<and> \<not> lacks_all convo_zero_id repo_keys"
  by (simp add: normalizeConvo_def raw_id_def raw_repo_id_def nc_def nullish_def js_not_def
      convo_zero_id_def lacks_all_def id_keys_def repo_keys_def)

subsection \<open>The context cache\<close>

lemma map_of_rev_distinct: "distinct (map fst al) \<Longrightarrow> map_of (rev al) = map_of al"
proof (induction al)
  case Nil then show ?case by simp
next
  case (Cons a al)
  then have ih: "map_of (rev al) = map_of al" and n: "map_of al (fst a) = None"
    by (simp_all add: map_of_eq_None_iff)
  show ?case
  proof
    fix x show "map_of (rev (a # al)) x = map_of (a # al) x"
      using n by (cases "x = fst a") (simp_all add: ih map_add_def split: option.splits)
  qed
qed

lemma obj_spread_distinct: "distinct (map fst t) \<Longrightarrow> distinct (map fst (obj_spread t s))"
  unfolding obj_spread_def
proof (induction s arbitrary: t)
  case Nil then show ?case by simp
next
  case (Cons a s)
  then show ?case by (cases a) (simp add: AList.distinct_update)
qed

lemma map_of_obj_spread: "map_of (obj_spread t s) = map_of t ++ map_of (rev s)"
  unfolding obj_spread_def
proof (induction s arbitrary: t)
  case Nil then show ?case by simp
next
  case (Cons a s)
  obtain k v where a: "a = (k, v)" by (cases a)
  have "map_of (fold (\<lambda>(k, v). AList.update k v) (a # s) t)
          = map_of (AList.update k v t) ++ map_of (rev s)"
    using Cons.IH [of "AList.update k v t"] by (simp add: a)
  also have "\<dots> = map_of t ++ map_of (rev (a # s))"
    by (simp add: a AList.update_conv' fun_eq_iff map_add_def split: option.splits)
  finally show ?case .
qed

lemma get_prop_spread:
  "get_prop (Some (JObj (obj_spread (obj_spread [] bp) add))) k
     = (case map_of (rev add) k of Some v \<Rightarrow> Some v | None \<Rightarrow> map_of (rev bp) k)"
proof -
  have d: "distinct (map fst (obj_spread (obj_spread [] bp) add))"
    by (intro obj_spread_distinct) simp
  show ?thesis
    by (simp add: map_of_rev_distinct [OF d] map_of_obj_spread map_add_def)
qed

lemma merge_lookup:
  "get_prop (Some (fst (mergeCtxCache ls cid add))) k
     = (case get_prop (Some (JObj add)) k of
          Some v \<Rightarrow> Some v
        | None \<Rightarrow> get_prop (Some (readCtxCache ls cid)) k)"
proof -
  have "get_prop (Some (fst (mergeCtxCache ls cid add))) k
          = (case map_of (rev add) k of Some v \<Rightarrow> Some v | None \<Rightarrow> map_of (rev (own_props (readCtxCache ls cid))) k)"
    by (simp add: mergeCtxCache_def Let_def get_prop_spread del: get_prop.simps)
  then show ?thesis by (simp split: option.splits)
qed

lemma read_after_write:
  "\<not> ls_denied ls \<Longrightarrow> \<not> ls_full ls \<Longrightarrow> is_object m \<Longrightarrow> readCtxCache (writeCtxCache ls cid m) cid = m"
  by (simp add: readCtxCache_def writeCtxCache_def setItem_def getItem_def JSON_stringify_def JSON_parse_def)

lemma write_swallowed: "ls_denied ls \<or> ls_full ls \<Longrightarrow> writeCtxCache ls cid m = ls"
  by (auto simp: writeCtxCache_def setItem_def)

text \<open>
  C9, as the code has it. When the storage accepts the write, reading the cache right
  after writing a map returns that map. \<open>mergeCtxCache\<close> returns a map that agrees with
  \<open>add\<close> on the keys of \<open>add\<close> and with the map read before on every other key, and it
  is what a following read returns when the storage accepts the write. When the storage
  refuses the write (access denied, quota used up) the failure is swallowed and the storage
  is left as it was. A read that fails, finds nothing, finds a text that is not JSON or
  finds JSON that is not an object gives the empty map.
\<close>

theorem ctx_cache_round_trip:
  "(\<not> ls_denied ls \<and> \<not> ls_full ls \<longrightarrow> readCtxCache (writeCtxCache ls cid (JObj kv)) cid = JObj kv)
   \<and> (\<forall>k. get_prop (Some (fst (mergeCtxCache ls cid add))) k
            = (case get_prop (Some (JObj add)) k of
                 Some v \<Rightarrow> Some v
               | None \<Rightarrow> get_prop (Some (readCtxCache ls cid)) k))
   \<and> (\<not> ls_denied ls \<and> \<not> ls_full ls \<longrightarrow>
         readCtxCache (snd (mergeCtxCache ls cid add)) cid = fst (mergeCtxCache ls cid add))
   \<and> (ls_denied ls \<or> ls_full ls \<longrightarrow>
         writeCtxCache ls cid (JObj kv) = ls \<and> snd (mergeCtxCache ls cid add) = ls)
   \<and> (ls_denied ls \<longrightarrow> readCtxCache ls cid = JObj [])
   \<and> (ls_items ls (ctxKey cid) = None \<longrightarrow> readCtxCache ls cid = JObj [])
   \<and> (ls_items ls (ctxKey cid) = Some (BadText t) \<longrightarrow> readCtxCache ls cid = JObj [])
   \<and> (ls_items ls (ctxKey cid) = Some (JsonText v) \<and> \<not> is_object v \<longrightarrow> readCtxCache ls cid = JObj [])"
proof (intro conjI impI allI)
  fix k show "get_prop (Some (fst (mergeCtxCache ls cid add))) k
            = (case get_prop (Some (JObj add)) k of
                 Some v \<Rightarrow> Some v
               | None \<Rightarrow> get_prop (Some (readCtxCache ls cid)) k)"
    by (rule merge_lookup)
next
  assume "\<not> ls_denied ls \<and> \<not> ls_full ls"
  then show "readCtxCache (snd (mergeCtxCache ls cid add)) cid = fst (mergeCtxCache ls cid add)"
    by (simp add: mergeCtxCache_def Let_def read_after_write)
next
  assume "ls_denied ls \<or> ls_full ls"
  then show "snd (mergeCtxCache ls cid add) = ls"
    by (simp add: mergeCtxCache_def Let_def write_swallowed)
next
  assume "\<not> ls_denied ls \<and> \<not> ls_full ls"
  then show "readCtxCache (writeCtxCache ls cid (JObj kv)) cid = JObj kv"
    by (simp add: read_after_write)
next
  assume "ls_denied ls \<or> ls_full ls"
  then show "writeCtxCache ls cid (JObj kv) = ls" by (rule write_swallowed)
next
  assume "ls_items ls (ctxKey cid) = Some (JsonText v) \<and> \<not> is_object v"
  then show "readCtxCache ls cid = JObj []"
    by (simp add: readCtxCache_def getItem_def JSON_parse_def)
qed (simp_all add: readCtxCache_def getItem_def JSON_parse_def)

text \<open>
  C9 as stated fails: with the quota used up, the write is dropped without a word, the read
  after it returns the empty map and not the map written, and the map \<open>mergeCtxCache\<close>
  returns is not the one stored.
\<close>

theorem ctx_cache_round_trip_counterexample:
  "readCtxCache (writeCtxCache storage_full ''c1'' (JObj ctx_m1)) ''c1'' = JObj []
   \<and> JObj [] \<noteq> JObj ctx_m1
   \<and> readCtxCache (snd (mergeCtxCache storage_full ''c1'' ctx_m1)) ''c1'' \<noteq> fst (mergeCtxCache storage_full ''c1'' ctx_m1)"
  by (simp add: readCtxCache_def writeCtxCache_def mergeCtxCache_def setItem_def getItem_def
      storage_full_def ctx_m1_def Let_def obj_spread_def)

theorem ctx_cache_round_trip_witness:
  "readCtxCache (writeCtxCache storage_c1 ''c1'' (JObj ctx_m1)) ''c1'' = JObj ctx_m1
   \<and> readCtxCache (snd (mergeCtxCache storage_c1 ''c1'' ctx_m1)) ''c1'' = fst (mergeCtxCache storage_c1 ''c1'' ctx_m1)
   \<and> get_prop (Some (fst (mergeCtxCache storage_c1 ''c1'' ctx_m1))) ''m0'' = Some (JArr [])
   \<and> writeCtxCache storage_full ''c1'' (JObj ctx_m1) = storage_full
   \<and> readCtxCache (storage_c1\<lparr>ls_denied := True\<rparr>) ''c1'' = JObj []
   \<and> readCtxCache storage_c1 ''c2'' = JObj []
   \<and> readCtxCache (storage_c1\<lparr>ls_items := [ctxKey ''c1'' \<mapsto> BadText ''{oops'']\<rparr>) ''c1'' = JObj []
   \<and> readCtxCache (storage_c1\<lparr>ls_items := [ctxKey ''c1'' \<mapsto> JsonText (JNum 3)]\<rparr>) ''c1'' = JObj []"
proof -
  have ok: "\<not> ls_denied storage_c1 \<and> \<not> ls_full storage_c1" by (simp add: storage_c1_def)
  have full: "ls_denied storage_full \<or> ls_full storage_full" by (simp add: storage_full_def)
  note t = ctx_cache_round_trip [of storage_c1 "''c1''" ctx_m1 ctx_m1]
  have a: "readCtxCache (writeCtxCache storage_c1 ''c1'' (JObj ctx_m1)) ''c1'' = JObj ctx_m1"
    using t [THEN conjunct1] ok by (rule mp)
  have b: "readCtxCache (snd (mergeCtxCache storage_c1 ''c1'' ctx_m1)) ''c1'' = fst (mergeCtxCache storage_c1 ''c1'' ctx_m1)"
    using t [THEN conjunct2, THEN conjunct2, THEN conjunct1] ok by (rule mp)
  have r: "readCtxCache storage_c1 ''c1'' = JObj [(''m0'', JArr [])]"
    by (simp add: readCtxCache_def getItem_def storage_c1_def JSON_parse_def)
  have c: "get_prop (Some (fst (mergeCtxCache storage_c1 ''c1'' ctx_m1))) ''m0'' = Some (JArr [])"
    using t [THEN conjunct2, THEN conjunct1, THEN spec, of "''m0''"] by (simp add: r ctx_m1_def)
  have d: "writeCtxCache storage_full ''c1'' (JObj ctx_m1) = storage_full"
    using ctx_cache_round_trip [of storage_full "''c1''" ctx_m1 ctx_m1, THEN conjunct2, THEN conjunct2,
        THEN conjunct2, THEN conjunct1] full by blast
  have e: "readCtxCache (storage_c1\<lparr>ls_denied := True\<rparr>) ''c1'' = JObj []"
    using ctx_cache_round_trip [of "storage_c1\<lparr>ls_denied := True\<rparr>" "''c1''" ctx_m1 ctx_m1, THEN conjunct2,
        THEN conjunct2, THEN conjunct2, THEN conjunct2, THEN conjunct1] by simp
  have f: "readCtxCache storage_c1 ''c2'' = JObj []"
    using ctx_cache_round_trip [of storage_c1 "''c2''" ctx_m1 ctx_m1, THEN conjunct2,
        THEN conjunct2, THEN conjunct2, THEN conjunct2, THEN conjunct2, THEN conjunct1]
    by (simp add: storage_c1_def ctxKey_def)
  have g: "readCtxCache (storage_c1\<lparr>ls_items := [ctxKey ''c1'' \<mapsto> BadText ''{oops'']\<rparr>) ''c1'' = JObj []"
    using ctx_cache_round_trip [of "storage_c1\<lparr>ls_items := [ctxKey ''c1'' \<mapsto> BadText ''{oops'']\<rparr>" "''c1''" ctx_m1 ctx_m1 "''{oops''",
        THEN conjunct2, THEN conjunct2, THEN conjunct2, THEN conjunct2, THEN conjunct2, THEN conjunct2, THEN conjunct1]
    by simp
  have h: "readCtxCache (storage_c1\<lparr>ls_items := [ctxKey ''c1'' \<mapsto> JsonText (JNum 3)]\<rparr>) ''c1'' = JObj []"
    using ctx_cache_round_trip [of "storage_c1\<lparr>ls_items := [ctxKey ''c1'' \<mapsto> JsonText (JNum 3)]\<rparr>" "''c1''" ctx_m1 ctx_m1 _ "JNum 3",
        THEN conjunct2, THEN conjunct2, THEN conjunct2, THEN conjunct2, THEN conjunct2, THEN conjunct2, THEN conjunct2]
    by simp
  from a b c d e f g h show ?thesis by (intro conjI)
qed

subsection \<open>Asking only when ready\<close>

lemma asks_append [simp]: "asks (xs @ ys) = (asks xs \<or> asks ys)"
  by (simp add: asks_def)

lemma asks_Cons [simp]: "asks (x # xs) = (is_askAnswer x \<or> asks xs)"
  by (simp add: asks_def)

lemma asks_Nil [simp]: "\<not> asks []"
  by (simp add: asks_def)

lemma handleAsk_not_ready:
  assumes "cs_repoId st = Some rid" "rid \<noteq> []" "\<not> cs_isAsking st" "\<not> isRepoReady st"
  shows "handleAsk st env q =
     (case env_status env of
        Inl _ \<Rightarrow> ([Call_getRepoStatus rid, Toast_error ''Repository is not ready yet.''], st)
      | Inr None \<Rightarrow> ([Call_getRepoStatus rid, Toast_error ''Repository is not ready yet.''], st)
      | Inr (Some s) \<Rightarrow>
          if \<not> status_ready (Some s)
          then ([Call_getRepoStatus rid, Toast_error ''Repository is not indexed yet.''], st\<lparr>cs_repoStatus := Some s\<rparr>)
          else (case ask_body (st\<lparr>cs_repoStatus := Some s, cs_isAsking := True\<rparr>) env rid q of
                  (es, st') \<Rightarrow> (Call_getRepoStatus rid # es, st')))"
  using assms by (simp add: handleAsk_def getRepoStatus_def Let_def split: sum.splits option.splits)

lemma handleAsk_asks:
  assumes "asks (fst (handleAsk st env q))"
  shows "cs_repoId st \<noteq> None \<and> cs_repoId st \<noteq> Some [] \<and> \<not> cs_isAsking st
         \<and> (isRepoReady st \<or> (\<exists>s. env_status env = Inr (Some s) \<and> status_ready (Some s)))"
proof -
  have g: "cs_repoId st \<noteq> None \<and> cs_repoId st \<noteq> Some [] \<and> \<not> cs_isAsking st"
    using assms by (auto simp: handleAsk_def split: if_splits)
  then obtain rid where rid: "cs_repoId st = Some rid" "rid \<noteq> []" by auto
  show ?thesis
  proof (cases "isRepoReady st")
    case True
    with g show ?thesis by simp
  next
    case False
    from assms have "\<exists>s. env_status env = Inr (Some s) \<and> status_ready (Some s)"
      unfolding handleAsk_not_ready [OF rid(1) rid(2) _ False, of env q, simplified g, simplified]
      by (auto split: sum.splits option.splits if_splits)
    with g show ?thesis by simp
  qed
qed

lemma ask_body_manuallyReady:
  "ask_body st env rid q = (es, st') \<Longrightarrow> cs_manuallyReady st' \<Longrightarrow> cs_manuallyReady st \<or> asks es"
  by (auto simp: ask_body_def Let_def split: prod.splits sum.splits if_splits)

lemma handleAsk_manuallyReady:
  assumes "cs_manuallyReady (snd (handleAsk st env q))"
  shows "cs_manuallyReady st \<or> asks (fst (handleAsk st env q))"
proof (cases "cs_repoId st = None \<or> cs_repoId st = Some [] \<or> cs_isAsking st")
  case True
  with assms show ?thesis by (simp add: handleAsk_def)
next
  case False
  then obtain rid where rid: "cs_repoId st = Some rid" "rid \<noteq> []" "\<not> cs_isAsking st" by auto
  show ?thesis
  proof (cases "isRepoReady st")
    case True
    obtain es st' where b: "ask_body (st\<lparr>cs_isAsking := True\<rparr>) env rid q = (es, st')"
      by (cases "ask_body (st\<lparr>cs_isAsking := True\<rparr>) env rid q")
    with rid True have h: "handleAsk st env q = (es, st')" by (simp add: handleAsk_def)
    from assms ask_body_manuallyReady [OF b] show ?thesis by (simp add: h)
  next
    case nr: False
    note h = handleAsk_not_ready [OF rid nr, of env q]
    show ?thesis
    proof (cases "\<exists>s. env_status env = Inr (Some s) \<and> status_ready (Some s)")
      case True
      then obtain s where s: "env_status env = Inr (Some s)" "status_ready (Some s)" by blast
      obtain es st' where b: "ask_body (st\<lparr>cs_repoStatus := Some s, cs_isAsking := True\<rparr>) env rid q = (es, st')"
        by (cases "ask_body (st\<lparr>cs_repoStatus := Some s, cs_isAsking := True\<rparr>) env rid q")
      from h s b have h': "handleAsk st env q = (Call_getRepoStatus rid # es, st')" by simp
      from assms ask_body_manuallyReady [OF b] show ?thesis by (simp add: h')
    next
      case False
      with assms h show ?thesis by (auto split: sum.splits option.splits if_splits)
    qed
  qed
qed

lemma select_repo_manuallyReady:
  "cs_manuallyReady (select_repo st rid res) \<Longrightarrow> status_ready (cs_repoStatus (select_repo st rid res))"
  by (auto simp: select_repo_def Let_def getRepoStatus_def split: if_splits sum.splits option.splits)

lemma page_ask_eq:
  "page_ask st idx env q =
     (if js_trim q = [] then ([], st)
      else if \<not> (isRepoReady st \<or> idx) then ([Form_error ''Repository is not ready yet.''], st)
      else handleAsk st env (js_trim q))"
  by (simp add: page_ask_def QueryForm_ask_def canAsk_def Let_def)

text \<open>
  C6, as the code has it. \<open>handleAsk\<close>, and the form in front of it, call the answer
  operation only for a selected repository, with no ask in flight, that the page holds
  ready or whose status, fetched at that moment, is ready. The page holds a repository
  ready when its status label is \<open>indexed\<close> or \<open>done\<close>, its document count is positive,
  the loaded history has an assistant message, or the remembered flag is set; the flag is
  set only with a ready status at hand or by an ask that reached the answer operation.
  When the repository is not ready no answer request is made and the ask ends with a
  notice: \<open>Repository is not indexed yet.\<close> when a status was fetched and is not ready,
  \<open>Repository is not ready yet.\<close> when none could be fetched, and the form's own
  \<open>Repository is not ready yet.\<close> when the progress hook does not report the index either.
\<close>

theorem handleAsk_gate:
  "(asks (fst (handleAsk st env q)) \<longrightarrow>
        cs_repoId st \<noteq> None \<and> cs_repoId st \<noteq> Some [] \<and> \<not> cs_isAsking st
      \<and> (isRepoReady st \<or> (\<exists>s. env_status env = Inr (Some s) \<and> status_ready (Some s))))
   \<and> (asks (fst (page_ask st idx env q)) \<longrightarrow>
        (isRepoReady st \<or> (\<exists>s. env_status env = Inr (Some s) \<and> status_ready (Some s))))
   \<and> isRepoReady st = (cs_manuallyReady st \<or> hasAssistantHistory st \<or> status_ready (cs_repoStatus st))
   \<and> (cs_manuallyReady (select_repo st0 r res) \<longrightarrow> status_ready (cs_repoStatus (select_repo st0 r res)))
   \<and> (cs_manuallyReady (snd (handleAsk st env q)) \<longrightarrow> cs_manuallyReady st \<or> asks (fst (handleAsk st env q)))
   \<and> (cs_repoId st = Some rid \<and> rid \<noteq> [] \<and> \<not> cs_isAsking st \<and> \<not> isRepoReady st
        \<and> env_status env = Inr (Some s) \<and> \<not> status_ready (Some s) \<longrightarrow>
        handleAsk st env q
          = ([Call_getRepoStatus rid, Toast_error ''Repository is not indexed yet.''], st\<lparr>cs_repoStatus := Some s\<rparr>))
   \<and> (cs_repoId st = Some rid \<and> rid \<noteq> [] \<and> \<not> cs_isAsking st \<and> \<not> isRepoReady st
        \<and> (env_status env = Inr None \<or> env_status env = Inl err) \<longrightarrow>
        handleAsk st env q = ([Call_getRepoStatus rid, Toast_error ''Repository is not ready yet.''], st))
   \<and> (js_trim q \<noteq> [] \<and> \<not> isRepoReady st \<and> \<not> idx \<longrightarrow>
        page_ask st idx env q = ([Form_error ''Repository is not ready yet.''], st))"
proof -
  have c1: "asks (fst (handleAsk st env q)) \<longrightarrow>
        cs_repoId st \<noteq> None \<and> cs_repoId st \<noteq> Some [] \<and> \<not> cs_isAsking st
      \<and> (isRepoReady st \<or> (\<exists>s. env_status env = Inr (Some s) \<and> status_ready (Some s)))"
    using handleAsk_asks [of st env q] by (rule impI)
  have c2: "asks (fst (page_ask st idx env q)) \<longrightarrow>
        (isRepoReady st \<or> (\<exists>s. env_status env = Inr (Some s) \<and> status_ready (Some s)))"
  proof
    assume "asks (fst (page_ask st idx env q))"
    then have "asks (fst (handleAsk st env (js_trim q)))"
      by (simp add: page_ask_eq split: if_splits)
    from handleAsk_asks [OF this]
    show "isRepoReady st \<or> (\<exists>s. env_status env = Inr (Some s) \<and> status_ready (Some s))" by simp
  qed
  have c3: "isRepoReady st = (cs_manuallyReady st \<or> hasAssistantHistory st \<or> status_ready (cs_repoStatus st))"
    by (simp add: isRepoReady_def)
  have c4: "cs_manuallyReady (select_repo st0 r res) \<longrightarrow> status_ready (cs_repoStatus (select_repo st0 r res))"
    using select_repo_manuallyReady [of st0 r res] by (rule impI)
  have c5: "cs_manuallyReady (snd (handleAsk st env q)) \<longrightarrow> cs_manuallyReady st \<or> asks (fst (handleAsk st env q))"
    using handleAsk_manuallyReady [of st env q] by (rule impI)
  have c6: "cs_repoId st = Some rid \<and> rid \<noteq> [] \<and> \<not> cs_isAsking st \<and> \<not> isRepoReady st
        \<and> env_status env = Inr (Some s) \<and> \<not> status_ready (Some s) \<longrightarrow>
        handleAsk st env q
          = ([Call_getRepoStatus rid, Toast_error ''Repository is not indexed yet.''], st\<lparr>cs_repoStatus := Some s\<rparr>)"
    by (simp add: handleAsk_not_ready)
  have c7: "cs_repoId st = Some rid \<and> rid \<noteq> [] \<and> \<not> cs_isAsking st \<and> \<not> isRepoReady st
        \<and> (env_status env = Inr None \<or> env_status env = Inl err) \<longrightarrow>
        handleAsk st env q = ([Call_getRepoStatus rid, Toast_error ''Repository is not ready yet.''], st)"
    by (auto simp: handleAsk_not_ready)
  have c8: "js_trim q \<noteq> [] \<and> \<not> isRepoReady st \<and> \<not> idx \<longrightarrow>
        page_ask st idx env q = ([Form_error ''Repository is not ready yet.''], st)"
    by (simp add: page_ask_eq)
  from c1 c2 c3 c4 c5 c6 c7 c8 show ?thesis by (intro conjI)
qed

lemma state_unready_eq:
  "state_unready = initial_state\<lparr>cs_repoId := Some ''r1''\<rparr>"
  by (simp add: state_unready_def select_repo_def Let_def getRepoStatus_def initial_state_def)

lemma state_unready_not_ready: "\<not> isRepoReady state_unready"
  by (simp add: state_unready_eq isRepoReady_def hasAssistantHistory_def status_ready_def initial_state_def
      ascii_lower_def)

text \<open>
  C6 as stated fails in the notice: with the repository not ready and the status request
  failing, the ask is rejected with \<open>Repository is not ready yet.\<close>, not with the
  not-indexed notice.
\<close>

theorem handleAsk_gate_counterexample:
  "\<not> isRepoReady state_unready
   \<and> handleAsk state_unready env_down ''What does it do?''
       = ([Call_getRepoStatus ''r1'', Toast_error ''Repository is not ready yet.''], state_unready)
   \<and> Toast_error ''Repository is not indexed yet.''
       \<notin> set (fst (handleAsk state_unready env_down ''What does it do?''))"
proof -
  have r: "cs_repoId state_unready = Some ''r1''" "\<not> cs_isAsking state_unready"
    by (simp_all add: state_unready_eq initial_state_def)
  have h: "handleAsk state_unready env_down ''What does it do?''
       = ([Call_getRepoStatus ''r1'', Toast_error ''Repository is not ready yet.''], state_unready)"
    by (simp add: handleAsk_not_ready [OF r(1) _ r(2) state_unready_not_ready] env_down_def)
  show ?thesis by (simp add: h state_unready_not_ready)
qed

lemma status_done_ready: "status_ready (Some status_done)"
  by (simp add: status_ready_def status_done_def ascii_lower_def lower_char_def)

lemma status_indexing_not_ready: "\<not> status_ready (Some status_indexing)"
  by (simp add: status_ready_def status_indexing_def ascii_lower_def lower_char_def)

lemma state_done_eq:
  "state_done = initial_state\<lparr>cs_repoId := Some ''r1'', cs_repoStatus := Some status_done, cs_manuallyReady := True\<rparr>"
  by (simp add: state_done_def select_repo_def Let_def getRepoStatus_def status_done_ready initial_state_def)

lemma state_indexing_eq:
  "state_indexing = initial_state\<lparr>cs_repoId := Some ''r1'', cs_repoStatus := Some status_indexing\<rparr>"
  by (simp add: state_indexing_def select_repo_def Let_def getRepoStatus_def status_indexing_not_ready initial_state_def)

lemma state_indexing_not_ready: "\<not> isRepoReady state_indexing"
  by (simp add: state_indexing_eq isRepoReady_def hasAssistantHistory_def status_indexing_not_ready initial_state_def)

lemma state_done_asks: "asks (fst (handleAsk state_done env_up ''What does it do?''))"
  by (simp add: state_done_eq handleAsk_def isRepoReady_def initial_state_def ask_body_def
      ensureConversation_def env_up_def Let_def data_or_empty_def)

theorem handleAsk_gate_witness:
  "asks (fst (handleAsk state_done env_up ''What does it do?'')) \<and> isRepoReady state_done
   \<and> asks (fst (page_ask state_done False env_up '' What does it do? ''))
   \<and> cs_manuallyReady state_done \<and> status_ready (cs_repoStatus state_done)
   \<and> cs_manuallyReady (snd (handleAsk state_done env_up ''What does it do?''))
   \<and> handleAsk state_indexing env_indexing ''What does it do?''
       = ([Call_getRepoStatus ''r1'', Toast_error ''Repository is not indexed yet.''], state_indexing)
   \<and> handleAsk state_unready env_down ''What does it do?''
       = ([Call_getRepoStatus ''r1'', Toast_error ''Repository is not ready yet.''], state_unready)
   \<and> page_ask state_indexing False env_indexing ''What does it do?''
       = ([Form_error ''Repository is not ready yet.''], state_indexing)"
proof -
  note t1 = handleAsk_gate [of state_done env_up "''What does it do?''" False initial_state "''r1''"
      "Inr (Some status_done)" "''r1''" status_done network_error]
  note t2 = handleAsk_gate [of state_indexing env_indexing "''What does it do?''" False initial_state "''r1''"
      "Inr (Some status_indexing)" "''r1''" status_indexing network_error]
  note t3 = handleAsk_gate [of state_unready env_down "''What does it do?''" False initial_state "''r1''"
      "Inl network_error" "''r1''" status_indexing network_error]
  have a: "asks (fst (handleAsk state_done env_up ''What does it do?''))" by (rule state_done_asks)
  have m: "cs_manuallyReady state_done" by (simp add: state_done_eq)
  have b: "isRepoReady state_done"
    using t1 [THEN conjunct2, THEN conjunct2, THEN conjunct1] m by simp
  have tr: "js_trim '' What does it do? '' = ''What does it do?''"
    by (simp add: js_trim_def js_space_def)
  have c: "asks (fst (page_ask state_done False env_up '' What does it do? ''))"
    using a b by (simp add: page_ask_eq tr)
  have d: "status_ready (cs_repoStatus state_done)"
    using t1 [THEN conjunct2, THEN conjunct2, THEN conjunct2, THEN conjunct1] m
    by (simp add: state_done_def)
  have e: "cs_manuallyReady (snd (handleAsk state_done env_up ''What does it do?''))"
    by (simp add: state_done_eq handleAsk_def isRepoReady_def initial_state_def ask_body_def
      ensureConversation_def env_up_def Let_def data_or_empty_def)
  have f: "handleAsk state_indexing env_indexing ''What does it do?''
       = ([Call_getRepoStatus ''r1'', Toast_error ''Repository is not indexed yet.''], state_indexing)"
  proof -
    have "cs_repoId state_indexing = Some ''r1'' \<and> ''r1'' \<noteq> [] \<and> \<not> cs_isAsking state_indexing
        \<and> \<not> isRepoReady state_indexing
        \<and> env_status env_indexing = Inr (Some status_indexing) \<and> \<not> status_ready (Some status_indexing)"
      by (simp add: state_indexing_not_ready status_indexing_not_ready)
         (simp add: state_indexing_eq initial_state_def env_indexing_def)
    with t2 [THEN conjunct2, THEN conjunct2, THEN conjunct2, THEN conjunct2, THEN conjunct2, THEN conjunct1]
    have "handleAsk state_indexing env_indexing ''What does it do?''
       = ([Call_getRepoStatus ''r1'', Toast_error ''Repository is not indexed yet.''],
          state_indexing\<lparr>cs_repoStatus := Some status_indexing\<rparr>)"
      by (rule mp)
    then show ?thesis by (simp add: state_indexing_eq)
  qed
  have g: "handleAsk state_unready env_down ''What does it do?''
       = ([Call_getRepoStatus ''r1'', Toast_error ''Repository is not ready yet.''], state_unready)"
  proof -
    have "cs_repoId state_unready = Some ''r1'' \<and> ''r1'' \<noteq> [] \<and> \<not> cs_isAsking state_unready
        \<and> \<not> isRepoReady state_unready
        \<and> (env_status env_down = Inr None \<or> env_status env_down = Inl network_error)"
      by (simp add: state_unready_not_ready) (simp add: state_unready_eq initial_state_def env_down_def)
    with t3 [THEN conjunct2, THEN conjunct2, THEN conjunct2, THEN conjunct2, THEN conjunct2, THEN conjunct2, THEN conjunct1] show ?thesis by (rule mp)
  qed
  have h: "page_ask state_indexing False env_indexing ''What does it do?''
       = ([Form_error ''Repository is not ready yet.''], state_indexing)"
  proof -
    have "js_trim ''What does it do?'' \<noteq> [] \<and> \<not> isRepoReady state_indexing \<and> \<not> False"
      by (simp add: state_indexing_not_ready) (simp add: js_trim_def js_space_def)
    with t2 [THEN conjunct2, THEN conjunct2, THEN conjunct2, THEN conjunct2, THEN conjunct2, THEN conjunct2, THEN conjunct2] show ?thesis by (rule mp)
  qed
  from a b c m d e f g h show ?thesis by (intro conjI)
qed

subsection \<open>The name of a repository\<close>

lemma ascii_lower_Nil_iff [simp]: "(ascii_lower s = []) = (s = [])"
  by (simp add: ascii_lower_def)

lemma tail_capture_nonempty: "tail_capture r = Some g \<Longrightarrow> g \<noteq> []"
  by (auto simp: tail_capture_def Let_def split: if_splits)

lemma last_segment_nonempty: "last_segment s = Some g \<Longrightarrow> g \<noteq> []"
  by (induction s) (auto split: option.splits if_splits dest: tail_capture_nonempty)

lemma matches_github_nonempty: "matches_github s \<Longrightarrow> s \<noteq> []"
  by (auto simp: matches_github_def ascii_lower_def)

lemma replace_with_segment_nonempty: "s \<noteq> [] \<Longrightarrow> replace_with_segment s \<noteq> []"
  by (auto simp: replace_with_segment_def split: option.splits dest: last_segment_nonempty)

lemma trimmed_or_nonempty: "d \<noteq> [] \<Longrightarrow> trimmed_or x d \<noteq> []"
  by (simp add: trimmed_or_def split: option.splits)

lemma derive_repo_name_nonempty: "derive_repo_name u p f \<noteq> []"
  by (simp add: derive_repo_name_def Let_def matches_github_nonempty replace_with_segment_nonempty
      trimmed_or_nonempty)

lemma btrim_nonempty: "sql_btrim v \<noteq> [] \<Longrightarrow> v \<noteq> []"
  by (auto simp: sql_btrim_def)

lemma fill_name_nonempty:
  "repo_name (repos_before_ins_upd_fill_name new) \<noteq> None
   \<and> repo_name (repos_before_ins_upd_fill_name new) \<noteq> Some []"
  by (auto simp: repos_before_ins_upd_fill_name_def name_is_blank_def derive_repo_name_nonempty
      sql_btrim_def split: option.splits)

lemma last_segment_append_Some: "last_segment t = Some g \<Longrightarrow> last_segment (pre @ t) = Some g"
  by (induction pre) simp_all

lemma last_segment_no_separator:
  "CHR ''/'' \<notin> set seg \<Longrightarrow> CHR '':'' \<notin> set seg \<Longrightarrow> last_segment seg = None"
  by (induction seg) auto

lemma last_segment_trailing_slash:
  "CHR ''/'' \<notin> set seg \<Longrightarrow> CHR '':'' \<notin> set seg \<Longrightarrow> last_segment (seg @ ''/'') = None"
  by (induction seg) (auto simp: tail_capture_def)

lemma tail_capture_segment:
  assumes "seg \<noteq> []" "CHR ''/'' \<notin> set seg"
  shows "tail_capture seg = Some (strip_git seg)" "tail_capture (seg @ ''/'') = Some (strip_git seg)"
proof -
  have "last seg \<in> set seg" using assms(1) by (rule last_in_set)
  with assms(2) have l: "last seg \<noteq> CHR ''/''" by auto
  show "tail_capture seg = Some (strip_git seg)"
    using assms l by (simp add: tail_capture_def strip_git_def Let_def)
  have "tail_capture (seg @ [CHR ''/'']) = Some (strip_git seg)"
    using assms by (simp add: tail_capture_def strip_git_def Let_def)
  then show "tail_capture (seg @ ''/'') = Some (strip_git seg)" by simp
qed

lemma replace_with_segment_url:
  assumes "seg \<noteq> []" "CHR ''/'' \<notin> set seg" "CHR '':'' \<notin> set seg"
    and "c = CHR ''/'' \<or> c = CHR '':''" and "sl = [] \<or> sl = ''/''"
  shows "replace_with_segment (pre @ c # seg @ sl) = strip_git seg"
proof -
  have n: "last_segment (seg @ sl) = None"
    using assms(2,3,5) by (auto simp: last_segment_no_separator last_segment_trailing_slash)
  have t: "tail_capture (seg @ sl) = Some (strip_git seg)"
    using assms(1,2,5) by (auto simp: tail_capture_segment)
  have "last_segment (c # seg @ sl) = Some (strip_git seg)"
    using assms(4) n t by auto
  then have "last_segment (pre @ c # seg @ sl) = Some (strip_git seg)"
    by (rule last_segment_append_Some)
  then show ?thesis by (simp add: replace_with_segment_def)
qed

lemma insert_repo_names_filled:
  "insert_repo db new = Inr db' \<Longrightarrow> names_filled db \<Longrightarrow> names_filled db'"
  using fill_name_nonempty [of new]
  by (auto simp: insert_repo_def Let_def names_filled_def split: if_splits)

lemma fold_assign_name:
  "\<not> list_ex fires_fill_name sets \<Longrightarrow> repo_name (fold assign sets r) = repo_name r"
proof (induction sets arbitrary: r)
  case Nil then show ?case by simp
next
  case (Cons a sets)
  then show ?case by (cases a) simp_all
qed

lemma find_repo_name:
  "find P rs = Some r \<Longrightarrow> list_all Q rs \<Longrightarrow> Q r"
  by (induction rs) (auto split: if_splits)

lemma update_repo_names_filled:
  assumes "update_repo db rid sets = Inr db'" "names_filled db"
  shows "names_filled db'"
proof (cases "find (\<lambda>r. repo_id r = Some rid) (repos db)")
  case None
  with assms show ?thesis by (simp add: update_repo_def)
next
  case (Some old)
  define new where "new = fold assign sets old"
  define row where "row = (if list_ex fires_fill_name sets then repos_before_ins_upd_fill_name new else new)"
  have old: "repo_name old \<noteq> None \<and> repo_name old \<noteq> Some []"
    using find_repo_name [OF Some, of "\<lambda>r. repo_name r \<noteq> None \<and> repo_name r \<noteq> Some []"] assms(2)
    by (simp add: names_filled_def)
  have row: "repo_name row \<noteq> None \<and> repo_name row \<noteq> Some []"
  proof (cases "list_ex fires_fill_name sets")
    case True
    then show ?thesis using fill_name_nonempty [of new] by (simp add: row_def)
  next
    case False
    then show ?thesis using old fold_assign_name [OF False, of old] by (simp add: row_def new_def)
  qed
  from assms(1) Some have "repos db' = map (\<lambda>r. if repo_id r = Some rid then row else r) (repos db)"
    by (auto simp: update_repo_def Let_def row_def new_def split: if_splits)
  with assms(2) row show ?thesis
    by (auto simp: names_filled_def list_all_iff)
qed

text \<open>
  C3, as the code has it. After the trigger the name of a repository row is never
  \<open>NULL\<close> and never empty, on insert and on update, so every stored name is non-empty.
  A name that is not blank is kept. A blank one is replaced by \<open>derive_repo_name\<close>, a
  function of the source locator, the storage path and the identifier: when the trimmed
  locator contains \<open>github.com\<close> (in any case), the lower-cased capture of the pattern,
  which for a locator ending in a separator \<open>/\<close> or \<open>:\<close>, a segment without separators
  and an optional final \<open>/\<close> is that segment without its \<open>.git\<close>; otherwise the
  lower-cased base name of the trimmed storage path without its archive extension, when
  that is not empty; otherwise the lower-cased trimmed identifier, or \<open>repo\<close> when the
  identifier is blank.
\<close>

theorem repo_name_filled:
  "repo_name (repos_before_ins_upd_fill_name new) \<noteq> None
   \<and> repo_name (repos_before_ins_upd_fill_name new) \<noteq> Some []
   \<and> (\<not> name_is_blank (repo_name new) \<longrightarrow> repos_before_ins_upd_fill_name new = new)
   \<and> (name_is_blank (repo_name new) \<longrightarrow>
        repo_name (repos_before_ins_upd_fill_name new)
          = Some (derive_repo_name (repo_source_uri new) (repo_storage_path new) (repo_id new)))
   \<and> (matches_github (trimmed_or u []) \<longrightarrow>
        derive_repo_name u p f = ascii_lower (replace_with_segment (trimmed_or u [])))
   \<and> (seg \<noteq> [] \<and> CHR ''/'' \<notin> set seg \<and> CHR '':'' \<notin> set seg \<and> (c = CHR ''/'' \<or> c = CHR '':'')
        \<and> (sl = [] \<or> sl = ''/'') \<longrightarrow>
        replace_with_segment (pre @ c # seg @ sl) = strip_git seg)
   \<and> (\<not> matches_github (trimmed_or u []) \<and> trimmed_or p [] \<noteq> []
        \<and> strip_archive_extension (strip_directories (trimmed_or p [])) \<noteq> [] \<longrightarrow>
        derive_repo_name u p f = ascii_lower (strip_archive_extension (strip_directories (trimmed_or p []))))
   \<and> (\<not> matches_github (trimmed_or u [])
        \<and> (trimmed_or p [] = [] \<or> strip_archive_extension (strip_directories (trimmed_or p [])) = []) \<longrightarrow>
        derive_repo_name u p f = ascii_lower (trimmed_or f ''repo''))
   \<and> (insert_repo db new = Inr db' \<and> names_filled db \<longrightarrow> names_filled db')
   \<and> (update_repo db rid sets = Inr db' \<and> names_filled db \<longrightarrow> names_filled db')"
proof -
  note c12 = fill_name_nonempty [of new]
  have c3: "\<not> name_is_blank (repo_name new) \<longrightarrow> repos_before_ins_upd_fill_name new = new"
    by (simp add: repos_before_ins_upd_fill_name_def)
  have c4: "name_is_blank (repo_name new) \<longrightarrow>
        repo_name (repos_before_ins_upd_fill_name new)
          = Some (derive_repo_name (repo_source_uri new) (repo_storage_path new) (repo_id new))"
    by (simp add: repos_before_ins_upd_fill_name_def)
  have c5: "matches_github (trimmed_or u []) \<longrightarrow>
        derive_repo_name u p f = ascii_lower (replace_with_segment (trimmed_or u []))"
    by (simp add: derive_repo_name_def Let_def)
  have c6: "seg \<noteq> [] \<and> CHR ''/'' \<notin> set seg \<and> CHR '':'' \<notin> set seg \<and> (c = CHR ''/'' \<or> c = CHR '':'')
        \<and> (sl = [] \<or> sl = ''/'') \<longrightarrow>
        replace_with_segment (pre @ c # seg @ sl) = strip_git seg"
    using replace_with_segment_url [of seg c sl pre] by blast
  have c7: "\<not> matches_github (trimmed_or u []) \<and> trimmed_or p [] \<noteq> []
        \<and> strip_archive_extension (strip_directories (trimmed_or p [])) \<noteq> [] \<longrightarrow>
        derive_repo_name u p f = ascii_lower (strip_archive_extension (strip_directories (trimmed_or p [])))"
    by (simp add: derive_repo_name_def Let_def)
  have c8: "\<not> matches_github (trimmed_or u [])
        \<and> (trimmed_or p [] = [] \<or> strip_archive_extension (strip_directories (trimmed_or p [])) = []) \<longrightarrow>
        derive_repo_name u p f = ascii_lower (trimmed_or f ''repo'')"
    by (auto simp: derive_repo_name_def Let_def)
  have c9: "insert_repo db new = Inr db' \<and> names_filled db \<longrightarrow> names_filled db'"
    using insert_repo_names_filled [of db new db'] by blast
  have c10: "update_repo db rid sets = Inr db' \<and> names_filled db \<longrightarrow> names_filled db'"
    using update_repo_names_filled [of db rid sets db'] by blast
  from c12 c3 c4 c5 c6 c7 c8 c9 c10 show ?thesis by (intro conjI) simp_all
qed

lemma fill_row_upload: "repos_before_ins_upd_fill_name row_upload = row_upload\<lparr>repo_name := Some ''demo''\<rparr>"
  by (simp add: repos_before_ins_upd_fill_name_def row_upload_def name_is_blank_def derive_repo_name_def
      trimmed_or_def matches_github_def sql_btrim_def strip_directories_def strip_archive_extension_def
      archive_extensions_def ends_with_ci_def ascii_lower_def lower_char_def Let_def)

lemma fill_row_bare: "repos_before_ins_upd_fill_name row_bare = row_bare\<lparr>repo_name := Some ''repo-a''\<rparr>"
  by (simp add: repos_before_ins_upd_fill_name_def row_bare_def name_is_blank_def derive_repo_name_def
      trimmed_or_def matches_github_def sql_btrim_def strip_directories_def strip_archive_extension_def
      archive_extensions_def ends_with_ci_def ascii_lower_def lower_char_def Let_def)

text \<open>
  C3 as stated fails: for an upload stored at \<open>/data/uploads/Demo.ZIP\<close> the derived name
  is \<open>demo\<close>, not the base name \<open>Demo.ZIP\<close> of the storage path, and with no usable path
  the repository \<open>Repo-A\<close> is named \<open>repo-a\<close>, not by its identifier.
\<close>

theorem repo_name_filled_counterexample:
  "name_is_blank (repo_name row_upload)
   \<and> repo_name (repos_before_ins_upd_fill_name row_upload) = Some ''demo''
   \<and> strip_directories ''/data/uploads/Demo.ZIP'' = ''Demo.ZIP''
   \<and> name_is_blank (repo_name row_bare)
   \<and> repo_name (repos_before_ins_upd_fill_name row_bare) = Some ''repo-a''
   \<and> repo_id row_bare = Some ''Repo-A''"
  by (simp add: fill_row_upload fill_row_bare)
     (simp add: row_upload_def row_bare_def name_is_blank_def sql_btrim_def strip_directories_def)

lemma git_uri_trimmed:
  "trimmed_or (repo_source_uri row_git) [] = ''https://GitHub.com/AILab-FOI'' @ CHR ''/'' # ''ByteSophos.git'' @ []"
  by (simp add: row_git_def trimmed_or_def sql_btrim_def)

lemma git_uri_matches: "matches_github (trimmed_or (repo_source_uri row_git) [])"
  unfolding git_uri_trimmed by (simp add: matches_github_def ascii_lower_def lower_char_def)

theorem repo_name_filled_witness:
  "repo_name (repos_before_ins_upd_fill_name row_git) = Some ''bytesophos''
   \<and> repo_name (repos_before_ins_upd_fill_name row_upload) = Some ''demo''
   \<and> repo_name (repos_before_ins_upd_fill_name row_bare) = Some ''repo-a''
   \<and> repos_before_ins_upd_fill_name row_named = row_named
   \<and> insert_repo empty_database row_git = Inr db_git \<and> names_filled db_git
   \<and> names_filled (after db_git (update_repo db_git ''r-77'' [Set_name (Some '' '')]))"
proof -
  note t = repo_name_filled [of row_git "repo_source_uri row_git" "repo_storage_path row_git" "repo_id row_git"
      "''ByteSophos.git''" "CHR ''/''" "[]" "''https://GitHub.com/AILab-FOI''" empty_database db_git "''r-77''"
      "[Set_name (Some '' '')]"]
  have blank: "name_is_blank (repo_name row_git)" by (simp add: row_git_def name_is_blank_def)
  have seg: "''ByteSophos.git'' \<noteq> [] \<and> CHR ''/'' \<notin> set ''ByteSophos.git'' \<and> CHR '':'' \<notin> set ''ByteSophos.git''
      \<and> (CHR ''/'' = CHR ''/'' \<or> CHR ''/'' = CHR '':'') \<and> ([] = [] \<or> [] = ''/'')"
    by simp
  have n1: "repo_name (repos_before_ins_upd_fill_name row_git)
      = Some (derive_repo_name (repo_source_uri row_git) (repo_storage_path row_git) (repo_id row_git))"
    using t [THEN conjunct2, THEN conjunct2, THEN conjunct2, THEN conjunct1] blank by (rule mp)
  have n2: "derive_repo_name (repo_source_uri row_git) (repo_storage_path row_git) (repo_id row_git)
      = ascii_lower (replace_with_segment (trimmed_or (repo_source_uri row_git) []))"
    using t [THEN conjunct2, THEN conjunct2, THEN conjunct2, THEN conjunct2, THEN conjunct1] git_uri_matches
    by (rule mp)
  have n3: "replace_with_segment (''https://GitHub.com/AILab-FOI'' @ CHR ''/'' # ''ByteSophos.git'' @ [])
      = strip_git ''ByteSophos.git''"
    using t [THEN conjunct2, THEN conjunct2, THEN conjunct2, THEN conjunct2, THEN conjunct2, THEN conjunct1] seg
    by (rule mp)
  have n4: "ascii_lower (strip_git ''ByteSophos.git'') = ''bytesophos''"
    by (simp add: strip_git_def ascii_lower_def lower_char_def)
  have a: "repo_name (repos_before_ins_upd_fill_name row_git) = Some ''bytesophos''"
    by (simp only: n1 n2 git_uri_trimmed n3 n4)
  have b: "repo_name (repos_before_ins_upd_fill_name row_upload) = Some ''demo''"
    by (simp add: fill_row_upload)
  have c: "repo_name (repos_before_ins_upd_fill_name row_bare) = Some ''repo-a''"
    by (simp add: fill_row_bare)
  have "\<not> name_is_blank (repo_name row_named)"
    by (simp add: row_named_def name_is_blank_def sql_btrim_def)
  with repo_name_filled [of row_named, THEN conjunct2, THEN conjunct2, THEN conjunct1]
  have d: "repos_before_ins_upd_fill_name row_named = row_named" by (rule mp)
  have fill: "repos_before_ins_upd_fill_name row_git = row_git\<lparr>repo_name := Some ''bytesophos''\<rparr>"
    using a blank by (simp add: repos_before_ins_upd_fill_name_def)
  have e: "insert_repo empty_database row_git = Inr db_git"
    unfolding insert_repo_def fill by (simp add: db_git_def empty_database_def row_git_def)
  have e0: "names_filled empty_database" by (simp add: names_filled_def empty_database_def)
  have f: "names_filled db_git"
    using t [THEN conjunct2, THEN conjunct2, THEN conjunct2, THEN conjunct2, THEN conjunct2, THEN conjunct2,
        THEN conjunct2, THEN conjunct2, THEN conjunct1] e e0 by blast
  have g: "names_filled (after db_git (update_repo db_git ''r-77'' [Set_name (Some '' '')]))"
  proof (cases "update_repo db_git ''r-77'' [Set_name (Some '' '')]")
    case (Inl err)
    then show ?thesis using f by (simp add: after_def)
  next
    case (Inr db')
    with repo_name_filled [of row_git None None None "''x''" "CHR ''/''" "[]" "[]" db_git db'
        "''r-77''" "[Set_name (Some '' '')]", THEN conjunct2, THEN conjunct2, THEN conjunct2, THEN conjunct2,
        THEN conjunct2, THEN conjunct2, THEN conjunct2, THEN conjunct2, THEN conjunct2] f
    show ?thesis by (simp add: after_def)
  qed
  from a b c d e f g show ?thesis by (intro conjI)
qed

subsection \<open>The stored rows\<close>

lemma fill_row_r1: "repos_before_ins_upd_fill_name row_r1 = row_r1"
  by (simp add: repos_before_ins_upd_fill_name_def row_r1_def name_is_blank_def sql_btrim_def)

lemma build_db_repo: "insert_repo empty_database row_r1 = Inr db_repo"
  unfolding insert_repo_def fill_row_r1 by (simp add: db_repo_def empty_database_def row_r1_def)

lemma build_db_doc: "insert_document db_repo doc_10 = Inr db_doc"
  by (simp add: insert_document_def db_doc_def db_repo_def empty_database_def row_r1_def doc_10_def)

lemma build_db_chunk: "insert_document_chunk db_doc chunk_100 = Inr db_chunk"
  by (simp add: insert_document_chunk_def db_chunk_def db_doc_def db_repo_def empty_database_def
      chunk_100_def doc_10_def int4_ok_def reference_ok_def)

lemma build_db_query: "insert_rag_query db_chunk query_200 = Inr db_query"
  by (simp add: insert_rag_query_def db_query_def db_chunk_def db_doc_def db_repo_def empty_database_def
      query_200_def reference_ok_def)

lemma build_db_audit: "insert_retrieved_chunk db_query rc_300 = Inr db_audit"
  by (simp add: insert_retrieved_chunk_def db_audit_def db_query_def db_chunk_def db_doc_def db_repo_def
      empty_database_def rc_300_def query_200_def chunk_100_def int4_ok_def reference_ok_def)

lemma insert_chunk_rows:
  "insert_document_chunk db c = Inr db' \<Longrightarrow> document_chunks db' = document_chunks db @ [c]"
  by (auto simp: insert_document_chunk_def split: if_splits)

lemma insert_chunk_fresh_id:
  "insert_document_chunk db c = Inr db' \<Longrightarrow> chunk_id c \<notin> set (map chunk_id (document_chunks db))"
  by (auto simp: insert_document_chunk_def split: if_splits)

lemma insert_chunk_dimension:
  "insert_document_chunk db c = Inr db' \<Longrightarrow>
     chunk_embedding c = None \<or> length (the (chunk_embedding c)) = embedding_dimension"
  by (auto simp: insert_document_chunk_def split: if_splits)

text \<open>
  C1, as the schema has it. \<open>document_chunks\<close> declares one key, \<open>id\<close>: an insert that
  succeeds appends the row and keeps the identifiers distinct. The pairs
  \<open>(document_id, chunk_index)\<close> and \<open>(document_id, chunk_hash)\<close> carry no unique index, so
  they stay unique after an insert exactly when they were unique before and the writer
  supplies a row whose two pairs are new; a repeated pair is not rejected.
\<close>

theorem chunk_ids_unique:
  "(insert_document_chunk db c = Inr db' \<and> distinct (map chunk_id (document_chunks db)) \<longrightarrow>
        distinct (map chunk_id (document_chunks db')) \<and> document_chunks db' = document_chunks db @ [c])
   \<and> (insert_document_chunk db c = Inr db' \<and> chunk_document_id c \<noteq> None \<longrightarrow>
        chunk_pairs_unique db' =
          (chunk_pairs_unique db
           \<and> (chunk_document_id c, chunk_index c)
                \<notin> set (map (\<lambda>r. (chunk_document_id r, chunk_index r)) (document_chunks db))
           \<and> (chunk_document_id c, chunk_hash c)
                \<notin> set (map (\<lambda>r. (chunk_document_id r, chunk_hash r)) (document_chunks db))))"
proof -
  have c1: "insert_document_chunk db c = Inr db' \<and> distinct (map chunk_id (document_chunks db)) \<longrightarrow>
        distinct (map chunk_id (document_chunks db')) \<and> document_chunks db' = document_chunks db @ [c]"
    using insert_chunk_rows [of db c db'] insert_chunk_fresh_id [of db c db'] by auto
  have c2: "insert_document_chunk db c = Inr db' \<and> chunk_document_id c \<noteq> None \<longrightarrow>
        chunk_pairs_unique db' =
          (chunk_pairs_unique db
           \<and> (chunk_document_id c, chunk_index c)
                \<notin> set (map (\<lambda>r. (chunk_document_id r, chunk_index r)) (document_chunks db))
           \<and> (chunk_document_id c, chunk_hash c)
                \<notin> set (map (\<lambda>r. (chunk_document_id r, chunk_hash r)) (document_chunks db)))"
  proof
    assume a: "insert_document_chunk db c = Inr db' \<and> chunk_document_id c \<noteq> None"
    then have rows: "document_chunks db' = document_chunks db @ [c]" by (simp add: insert_chunk_rows)
    from a show "chunk_pairs_unique db' =
          (chunk_pairs_unique db
           \<and> (chunk_document_id c, chunk_index c)
                \<notin> set (map (\<lambda>r. (chunk_document_id r, chunk_index r)) (document_chunks db))
           \<and> (chunk_document_id c, chunk_hash c)
                \<notin> set (map (\<lambda>r. (chunk_document_id r, chunk_hash r)) (document_chunks db)))"
      unfolding chunk_pairs_unique_def rows Let_def by auto
  qed
  from c1 c2 show ?thesis by (intro conjI)
qed

lemma build_db_chunk_twice: "insert_document_chunk db_chunk chunk_101 = Inr db_chunk_twice"
  by (simp add: insert_document_chunk_def db_chunk_twice_def db_chunk_def db_doc_def db_repo_def empty_database_def
      chunk_100_def chunk_101_def doc_10_def int4_ok_def reference_ok_def)

text \<open>
  C1 as stated fails: after a repository, a document and a chunk are inserted, a second
  chunk of the same document with the same index and the same hash, under another
  identifier, is accepted.
\<close>

theorem chunk_ids_unique_counterexample:
  "insert_repo empty_database row_r1 = Inr db_repo
   \<and> insert_document db_repo doc_10 = Inr db_doc
   \<and> insert_document_chunk db_doc chunk_100 = Inr db_chunk
   \<and> insert_document_chunk db_chunk chunk_101 = Inr db_chunk_twice
   \<and> \<not> chunk_pairs_unique db_chunk_twice"
  by (simp add: build_db_repo build_db_doc build_db_chunk build_db_chunk_twice)
     (simp add: chunk_pairs_unique_def db_chunk_twice_def chunk_100_def chunk_101_def)

theorem chunk_ids_unique_witness:
  "distinct (map chunk_id (document_chunks db_chunk_twice))
   \<and> document_chunks db_chunk_twice = [chunk_100, chunk_101]
   \<and> chunk_pairs_unique db_chunk"
proof -
  have d: "distinct (map chunk_id (document_chunks db_chunk))" by (simp add: db_chunk_def)
  from chunk_ids_unique [of db_chunk chunk_101 db_chunk_twice, THEN conjunct1] build_db_chunk_twice d
  have a: "distinct (map chunk_id (document_chunks db_chunk_twice))
      \<and> document_chunks db_chunk_twice = document_chunks db_chunk @ [chunk_101]"
    by blast
  have n: "chunk_document_id chunk_100 \<noteq> None" by (simp add: chunk_100_def)
  have e: "chunk_pairs_unique db_doc" by (simp add: chunk_pairs_unique_def db_doc_def db_repo_def empty_database_def)
  from chunk_ids_unique [of db_doc chunk_100 db_chunk, THEN conjunct2] build_db_chunk n
  have "chunk_pairs_unique db_chunk =
          (chunk_pairs_unique db_doc
           \<and> (chunk_document_id chunk_100, chunk_index chunk_100)
                \<notin> set (map (\<lambda>r. (chunk_document_id r, chunk_index r)) (document_chunks db_doc))
           \<and> (chunk_document_id chunk_100, chunk_hash chunk_100)
                \<notin> set (map (\<lambda>r. (chunk_document_id r, chunk_hash r)) (document_chunks db_doc)))"
    by blast
  then have b: "chunk_pairs_unique db_chunk"
    using e by (simp add: db_doc_def db_repo_def empty_database_def)
  from a have a1: "distinct (map chunk_id (document_chunks db_chunk_twice))" by (rule conjunct1)
  from a have a2: "document_chunks db_chunk_twice = [chunk_100, chunk_101]"
    by (simp add: db_chunk_def)
  from a1 a2 b show ?thesis by (intro conjI)
qed

lemma build_db_untagged: "insert_document_chunk db_doc chunk_untagged = Inr db_untagged"
  by (simp add: insert_document_chunk_def db_untagged_def db_doc_def db_repo_def empty_database_def
      chunk_untagged_def doc_10_def int4_ok_def reference_ok_def embedding_dimension_def)

text \<open>
  C5, as the schema has it. Every stored embedding has 1536 components: an insert with
  an embedding of another length is refused, and an insert that succeeds stores the row as
  given, model name included, and keeps the dimensions. The index on the embeddings is
  declared with the operator class \<open>vector_l2_ops\<close>, the Euclidean distance, whatever the
  query. The column \<open>embedding_model\<close> may be \<open>NULL\<close>: the schema does not require the
  tag.
\<close>

theorem embedding_dimension_fixed:
  "(insert_document_chunk db c = Inr db' \<and> dimensions_fixed db \<longrightarrow>
        dimensions_fixed db' \<and> document_chunks db' = document_chunks db @ [c])
   \<and> (int4_ok (chunk_index c) \<and> chunk_embedding c = Some v \<and> length v \<noteq> embedding_dimension \<longrightarrow>
        insert_document_chunk db c = Inl data_exception)
   \<and> embedding_dimension = 1536
   \<and> index_metric idx_document_chunks_embedding = Some L2"
proof -
  have c1: "insert_document_chunk db c = Inr db' \<and> dimensions_fixed db \<longrightarrow>
        dimensions_fixed db' \<and> document_chunks db' = document_chunks db @ [c]"
    using insert_chunk_rows [of db c db'] insert_chunk_dimension [of db c db']
    by (auto simp: dimensions_fixed_def)
  have c2: "int4_ok (chunk_index c) \<and> chunk_embedding c = Some v \<and> length v \<noteq> embedding_dimension \<longrightarrow>
        insert_document_chunk db c = Inl data_exception"
    by (simp add: insert_document_chunk_def)
  have c3: "embedding_dimension = 1536" by (simp add: embedding_dimension_def)
  have c4: "index_metric idx_document_chunks_embedding = Some L2"
    by (simp add: index_metric_def idx_document_chunks_embedding_def opclass_metric_def)
  from c1 c2 c3 c4 show ?thesis by (intro conjI)
qed

text \<open>
  C5 as stated fails in the tag: a chunk with an embedding of 1536 components and no model
  name is accepted.
\<close>

theorem embedding_dimension_fixed_counterexample:
  "insert_document_chunk db_doc chunk_untagged = Inr db_untagged
   \<and> \<not> embeddings_tagged db_untagged"
  by (simp add: build_db_untagged) (simp add: embeddings_tagged_def db_untagged_def chunk_untagged_def)

theorem embedding_dimension_fixed_witness:
  "dimensions_fixed db_untagged
   \<and> document_chunks db_untagged = [chunk_untagged]
   \<and> insert_document_chunk db_doc chunk_short = Inl data_exception"
proof -
  have d: "dimensions_fixed db_doc" by (simp add: dimensions_fixed_def db_doc_def db_repo_def empty_database_def)
  from embedding_dimension_fixed [of db_doc chunk_untagged db_untagged, THEN conjunct1] build_db_untagged d
  have a: "dimensions_fixed db_untagged \<and> document_chunks db_untagged = document_chunks db_doc @ [chunk_untagged]"
    by blast
  have "int4_ok (chunk_index chunk_short) \<and> chunk_embedding chunk_short = Some [0, 1, 0]
      \<and> length [0, 1, 0 :: real] \<noteq> embedding_dimension"
    by (simp add: chunk_short_def chunk_untagged_def int4_ok_def embedding_dimension_def)
  with embedding_dimension_fixed [of db_doc chunk_short db_untagged "[0, 1, 0]", THEN conjunct2, THEN conjunct1]
  have b: "insert_document_chunk db_doc chunk_short = Inl data_exception" by (rule mp)
  from a have a1: "dimensions_fixed db_untagged" by (rule conjunct1)
  from a have a2: "document_chunks db_untagged = [chunk_untagged]"
    by (simp add: db_doc_def db_repo_def empty_database_def)
  from a1 a2 b show ?thesis by (intro conjI)
qed

lemma insert_retrieved_chunk_rows:
  "insert_retrieved_chunk db x = Inr db' \<Longrightarrow> retrieved_chunks db' = retrieved_chunks db @ [x]"
  by (auto simp: insert_retrieved_chunk_def split: if_splits)

lemma insert_retrieved_chunks_rows:
  "insert_retrieved_chunks db rows = Inr db' \<Longrightarrow> retrieved_chunks db' = retrieved_chunks db @ rows"
proof (induction rows arbitrary: db)
  case Nil
  then show ?case by simp
next
  case (Cons x rows)
  then obtain db1 where s: "insert_retrieved_chunk db x = Inr db1" "insert_retrieved_chunks db1 rows = Inr db'"
    by (auto split: sum.splits)
  from Cons.IH [OF s(2)] insert_retrieved_chunk_rows [OF s(1)] show ?case by simp
qed

lemma ranks_contiguous_upto: "ranks_contiguous (map (\<lambda>i. Some (int i)) [1..<Suc n])"
  by (simp add: ranks_contiguous_def distinct_map inj_on_def)

text \<open>
  C2, as the schema has it. \<open>retrieved_chunks\<close> stores \<open>rank\<close> and \<open>used_in_prompt\<close> as
  they are written and constrains neither: after an insert of rows, the used ranks of a
  query are those it had before followed by those of the rows inserted for it. So they
  are distinct and form \<open>1..N\<close> for a query with no used row before, once its used rows
  are written with the ranks \<open>1, ..., N\<close>.
\<close>

theorem ranks_as_written:
  "(insert_retrieved_chunks db rows = Inr db' \<longrightarrow>
        used_ranks db' q
          = used_ranks db q @ map rc_rank (filter (\<lambda>x. rc_rag_query_id x = Some q \<and> rc_used_in_prompt x) rows))
   \<and> (insert_retrieved_chunks db rows = Inr db' \<and> used_ranks db q = []
        \<and> map rc_rank (filter (\<lambda>x. rc_rag_query_id x = Some q \<and> rc_used_in_prompt x) rows)
            = map (\<lambda>i. Some (int i)) [1..<Suc n] \<longrightarrow>
        ranks_contiguous (used_ranks db' q))"
proof -
  have c1: "insert_retrieved_chunks db rows = Inr db' \<longrightarrow>
        used_ranks db' q
          = used_ranks db q @ map rc_rank (filter (\<lambda>x. rc_rag_query_id x = Some q \<and> rc_used_in_prompt x) rows)"
    using insert_retrieved_chunks_rows [of db rows db'] by (simp add: used_ranks_def)
  then have c2: "insert_retrieved_chunks db rows = Inr db' \<and> used_ranks db q = []
        \<and> map rc_rank (filter (\<lambda>x. rc_rag_query_id x = Some q \<and> rc_used_in_prompt x) rows)
            = map (\<lambda>i. Some (int i)) [1..<Suc n] \<longrightarrow>
        ranks_contiguous (used_ranks db' q)"
    using ranks_contiguous_upto [of n] by simp
  from c1 c2 show ?thesis by (intro conjI)
qed

lemma build_db_rank_twice: "insert_retrieved_chunks db_query [rc_300, rc_301] = Inr db_rank_twice"
  by (simp add: insert_retrieved_chunk_def db_rank_twice_def db_query_def db_chunk_def db_doc_def db_repo_def
      empty_database_def rc_300_def rc_301_def query_200_def chunk_100_def int4_ok_def reference_ok_def)

lemma build_db_ranked: "insert_retrieved_chunks db_query [rc_300, rc_302, rc_303] = Inr db_ranked"
  by (simp add: insert_retrieved_chunk_def db_ranked_def db_query_def db_chunk_def db_doc_def db_repo_def
      empty_database_def rc_300_def rc_302_def rc_303_def query_200_def chunk_100_def int4_ok_def reference_ok_def)

text \<open>A rank that is \<open>NULL\<close> and ranks that leave a gap are stored as they are written.\<close>

lemma ranks_unconstrained:
  "insert_retrieved_chunks db_query [rc_300\<lparr>rc_rank := None\<rparr>, rc_302\<lparr>rc_rank := Some 5\<rparr>]
     = Inr (db_query\<lparr>retrieved_chunks := [rc_300\<lparr>rc_rank := None\<rparr>, rc_302\<lparr>rc_rank := Some 5\<rparr>]\<rparr>)
   \<and> used_ranks (db_query\<lparr>retrieved_chunks := [rc_300\<lparr>rc_rank := None\<rparr>, rc_302\<lparr>rc_rank := Some 5\<rparr>]\<rparr>) 200
     = [None, Some 5]"
  by (simp add: insert_retrieved_chunk_def used_ranks_def db_query_def db_chunk_def db_doc_def db_repo_def
      empty_database_def rc_300_def rc_302_def query_200_def chunk_100_def int4_ok_def reference_ok_def)

text \<open>
  C2 as stated fails: two rows of one query, both used in the prompt and both of rank 1,
  are accepted.
\<close>

theorem ranks_as_written_counterexample:
  "insert_rag_query db_chunk query_200 = Inr db_query
   \<and> insert_retrieved_chunks db_query [rc_300, rc_301] = Inr db_rank_twice
   \<and> used_ranks db_rank_twice 200 = [Some 1, Some 1]
   \<and> \<not> ranks_contiguous (used_ranks db_rank_twice 200)"
proof -
  have u: "used_ranks db_rank_twice 200 = [Some 1, Some 1]"
    by (simp add: used_ranks_def db_rank_twice_def rc_300_def rc_301_def)
  have "\<not> ranks_contiguous [Some 1, Some 1]" by (simp add: ranks_contiguous_def)
  with u build_db_query build_db_rank_twice show ?thesis by simp
qed

theorem ranks_as_written_witness:
  "used_ranks db_ranked 200 = [Some 1, Some 2] \<and> ranks_contiguous (used_ranks db_ranked 200)"
proof -
  note t = ranks_as_written [of db_query "[rc_300, rc_302, rc_303]" db_ranked 200 2]
  have e: "used_ranks db_query 200 = []"
    by (simp add: used_ranks_def db_query_def db_chunk_def db_doc_def db_repo_def empty_database_def)
  have r: "map rc_rank (filter (\<lambda>x. rc_rag_query_id x = Some 200 \<and> rc_used_in_prompt x) [rc_300, rc_302, rc_303])
      = [Some 1, Some 2]"
    by (simp add: rc_300_def rc_302_def rc_303_def)
  have n: "map (\<lambda>i. Some (int i)) [1..<Suc 2] = [Some 1, Some 2]"
    by (simp add: upt_rec)
  from t [THEN conjunct1] build_db_ranked have "used_ranks db_ranked 200 = used_ranks db_query 200 @
      map rc_rank (filter (\<lambda>x. rc_rag_query_id x = Some 200 \<and> rc_used_in_prompt x) [rc_300, rc_302, rc_303])"
    by (rule mp)
  then have a: "used_ranks db_ranked 200 = [Some 1, Some 2]" by (simp only: e r append_Nil)
  have "insert_retrieved_chunks db_query [rc_300, rc_302, rc_303] = Inr db_ranked \<and> used_ranks db_query 200 = []
        \<and> map rc_rank (filter (\<lambda>x. rc_rag_query_id x = Some 200 \<and> rc_used_in_prompt x) [rc_300, rc_302, rc_303])
            = map (\<lambda>i. Some (int i)) [1..<Suc 2]"
    using build_db_ranked e r n by simp
  with t [THEN conjunct2] have b: "ranks_contiguous (used_ranks db_ranked 200)" by (rule mp)
  from a b show ?thesis by (intro conjI)
qed

subsection \<open>Deleting a repository\<close>

lemma delete_repo_result:
  assumes "Some rid \<in> set (map repo_id (repos db))" "delete_repo db rid = Inr db'"
  shows "db' =
      \<lparr>repos = filter (\<lambda>r. repo_id r \<noteq> Some rid) (repos db),
       conversations = filter (\<lambda>c. conversation_repo_id c \<noteq> rid) (conversations db),
       messages = filter (\<lambda>m. \<not> refers_to (message_conversation_id m) (repo_conversations db rid)) (messages db),
       documents = filter (\<lambda>d. document_repo_id d \<noteq> rid) (documents db),
       document_chunks = filter (\<lambda>c. \<not> refers_to (chunk_document_id c) (repo_documents db rid)) (document_chunks db),
       rag_queries = filter (\<lambda>q. \<not> refers_to (query_conversation_id q) (repo_conversations db rid)) (rag_queries db),
       retrieved_chunks = filter (\<lambda>x. \<not> refers_to (rc_rag_query_id x) (repo_queries db rid)) (retrieved_chunks db)\<rparr>"
    and "\<not> list_ex (\<lambda>x. refers_to (rc_document_chunk_id x) (repo_chunks db rid))
           (filter (\<lambda>x. \<not> refers_to (rc_rag_query_id x) (repo_queries db rid)) (retrieved_chunks db))"
  using assms
  by (auto simp: delete_repo_def Let_def repo_conversations_def repo_documents_def repo_queries_def
      repo_chunks_def split: if_splits)

text \<open>
  When the delete of an existing repository goes through, the repository is gone with all
  its documents, the chunks of those documents, its conversations, their messages, the
  queries recorded under those conversations and the retrieved-chunk rows of those
  queries, and no remaining retrieved-chunk row references a chunk of the repository.
\<close>

lemma delete_repo_removes_all:
  "Some rid \<in> set (map repo_id (repos db)) \<and> delete_repo db rid = Inr db' \<longrightarrow>
       Some rid \<notin> set (map repo_id (repos db'))
     \<and> (\<forall>d \<in> set (documents db'). document_repo_id d \<noteq> rid)
     \<and> (\<forall>c \<in> set (document_chunks db'). \<not> refers_to (chunk_document_id c) (repo_documents db rid))
     \<and> (\<forall>c \<in> set (conversations db'). conversation_repo_id c \<noteq> rid)
     \<and> (\<forall>m \<in> set (messages db'). \<not> refers_to (message_conversation_id m) (repo_conversations db rid))
     \<and> (\<forall>q \<in> set (rag_queries db'). \<not> refers_to (query_conversation_id q) (repo_conversations db rid))
     \<and> (\<forall>x \<in> set (retrieved_chunks db'). \<not> refers_to (rc_rag_query_id x) (repo_queries db rid)
                                         \<and> \<not> refers_to (rc_document_chunk_id x) (repo_chunks db rid))"
proof
  assume a: "Some rid \<in> set (map repo_id (repos db)) \<and> delete_repo db rid = Inr db'"
  note r = delete_repo_result [OF a [THEN conjunct1] a [THEN conjunct2]]
  have f1: "repos db' = filter (\<lambda>r. repo_id r \<noteq> Some rid) (repos db)"
    and f2: "documents db' = filter (\<lambda>d. document_repo_id d \<noteq> rid) (documents db)"
    and f3: "document_chunks db'
        = filter (\<lambda>c. \<not> refers_to (chunk_document_id c) (repo_documents db rid)) (document_chunks db)"
    and f4: "conversations db' = filter (\<lambda>c. conversation_repo_id c \<noteq> rid) (conversations db)"
    and f5: "messages db'
        = filter (\<lambda>m. \<not> refers_to (message_conversation_id m) (repo_conversations db rid)) (messages db)"
    and f6: "rag_queries db'
        = filter (\<lambda>q. \<not> refers_to (query_conversation_id q) (repo_conversations db rid)) (rag_queries db)"
    and f7: "retrieved_chunks db'
        = filter (\<lambda>x. \<not> refers_to (rc_rag_query_id x) (repo_queries db rid)) (retrieved_chunks db)"
    by (simp_all add: r(1))
  have k: "\<forall>x \<in> set (retrieved_chunks db'). \<not> refers_to (rc_document_chunk_id x) (repo_chunks db rid)"
    using r(2) unfolding f7 by (auto simp: list_ex_iff)
  have k': "\<forall>x \<in> set (retrieved_chunks db'). \<not> refers_to (rc_rag_query_id x) (repo_queries db rid)"
    unfolding f7 by simp
  show "Some rid \<notin> set (map repo_id (repos db'))
     \<and> (\<forall>d \<in> set (documents db'). document_repo_id d \<noteq> rid)
     \<and> (\<forall>c \<in> set (document_chunks db'). \<not> refers_to (chunk_document_id c) (repo_documents db rid))
     \<and> (\<forall>c \<in> set (conversations db'). conversation_repo_id c \<noteq> rid)
     \<and> (\<forall>m \<in> set (messages db'). \<not> refers_to (message_conversation_id m) (repo_conversations db rid))
     \<and> (\<forall>q \<in> set (rag_queries db'). \<not> refers_to (query_conversation_id q) (repo_conversations db rid))
     \<and> (\<forall>x \<in> set (retrieved_chunks db'). \<not> refers_to (rc_rag_query_id x) (repo_queries db rid)
                                         \<and> \<not> refers_to (rc_document_chunk_id x) (repo_chunks db rid))"
    using k k' by (auto simp: f1 f2 f3 f4 f5 f6)
qed

text \<open>
  The only error of the statement is the foreign-key violation, and the delete of an
  existing repository is refused exactly when a retrieved-chunk row of a query that is not
  recorded under one of its conversations references one of its chunks. A refused delete
  leaves every table as it was.
\<close>

lemma delete_repo_error:
  "delete_repo db rid = Inl e \<Longrightarrow> e = foreign_key_violation \<and> Some rid \<in> set (map repo_id (repos db))"
  by (auto simp: delete_repo_def Let_def split: if_splits)

lemma delete_repo_refused_iff:
  "Some rid \<in> set (map repo_id (repos db)) \<Longrightarrow>
     (delete_repo db rid = Inl foreign_key_violation)
       = list_ex (\<lambda>x. refers_to (rc_document_chunk_id x) (repo_chunks db rid))
           (filter (\<lambda>x. \<not> refers_to (rc_rag_query_id x) (repo_queries db rid)) (retrieved_chunks db))"
  by (simp add: delete_repo_def Let_def repo_conversations_def repo_documents_def repo_queries_def
      repo_chunks_def)

lemma delete_repo_refused_unchanged: "delete_repo db rid = Inl e \<Longrightarrow> after db (delete_repo db rid) = db"
  by (simp add: after_def)

text \<open>
  C4. Deleting a repository is to remove its documents, their chunks, its conversations
  and the queries recorded under them, so that no row referencing it survives. Of the
  references on that path \<open>retrieved_chunks.document_chunk_id\<close> alone names no
  \<open>ON DELETE\<close> action, where \<open>rag_query_id\<close> beside it cascades. In the database made
  by five accepted inserts (the repository \<open>r1\<close>, a document of it, a chunk of the document,
  a query recorded without a conversation, and a retrieved-chunk row of that query for the
  chunk) the delete of \<open>r1\<close> is refused with a foreign-key violation: the repository, its
  document and its chunk are all still stored.
\<close>

theorem delete_repo_refused:
  "insert_repo empty_database row_r1 = Inr db_repo
   \<and> insert_document db_repo doc_10 = Inr db_doc
   \<and> insert_document_chunk db_doc chunk_100 = Inr db_chunk
   \<and> insert_rag_query db_chunk query_200 = Inr db_query
   \<and> insert_retrieved_chunk db_query rc_300 = Inr db_audit
   \<and> query_conversation_id query_200 = None
   \<and> delete_repo db_audit ''r1'' = Inl foreign_key_violation
   \<and> map repo_id (repos (after db_audit (delete_repo db_audit ''r1''))) = [Some ''r1'']
   \<and> documents (after db_audit (delete_repo db_audit ''r1'')) = [doc_10]
   \<and> document_repo_id doc_10 = ''r1''
   \<and> document_chunks (after db_audit (delete_repo db_audit ''r1'')) = [chunk_100]
   \<and> chunk_document_id chunk_100 = Some (document_id doc_10)"
proof -
  have d: "delete_repo db_audit ''r1'' = Inl foreign_key_violation"
    by (simp add: delete_repo_def db_audit_def db_query_def db_chunk_def db_doc_def db_repo_def
      empty_database_def row_r1_def doc_10_def chunk_100_def query_200_def rc_300_def refers_to_def Let_def)
  have e: "documents db_audit = [doc_10]"
    by (simp add: db_audit_def db_query_def db_chunk_def db_doc_def)
  have f: "document_chunks db_audit = [chunk_100]"
    by (simp add: db_audit_def db_query_def db_chunk_def)
  have g: "map repo_id (repos db_audit) = [Some ''r1'']"
    by (simp add: db_audit_def db_query_def db_chunk_def db_doc_def db_repo_def row_r1_def)
  have h: "query_conversation_id query_200 = None" by (simp add: query_200_def)
  have i: "document_repo_id doc_10 = ''r1''" by (simp add: doc_10_def)
  have j: "chunk_document_id chunk_100 = Some (document_id doc_10)" by (simp add: chunk_100_def doc_10_def)
  have a: "after db_audit (delete_repo db_audit ''r1'') = db_audit" by (simp add: d after_def)
  from build_db_repo build_db_doc build_db_chunk build_db_query build_db_audit h d g e i f j
  show ?thesis unfolding a by (intro conjI)
qed

text \<open>A delete that goes through: the repository \<open>r1\<close> of two, with a conversation, a
  message, a query recorded under the conversation and its retrieved-chunk row.\<close>

lemma delete_db_full: "delete_repo db_full ''r1'' = Inr db_rest"
  by (simp add: delete_repo_def db_full_def db_rest_def row_r1_def row_r2_def doc_10_def chunk_100_def
      query_200_def rc_300_def refers_to_def Let_def)

lemma delete_db_full_removes_all:
  "delete_repo db_full ''r1'' = Inr db_rest
   \<and> Some ''r1'' \<notin> set (map repo_id (repos db_rest))
   \<and> list_all (\<lambda>d. document_repo_id d \<noteq> ''r1'') (documents db_rest)
   \<and> conversations db_rest = [] \<and> rag_queries db_rest = [] \<and> retrieved_chunks db_rest = []"
proof -
  have i: "Some ''r1'' \<in> set (map repo_id (repos db_full))" by (simp add: db_full_def row_r1_def)
  from delete_repo_removes_all [of "''r1''" db_full db_rest] i delete_db_full
  have "Some ''r1'' \<notin> set (map repo_id (repos db_rest))
     \<and> (\<forall>d \<in> set (documents db_rest). document_repo_id d \<noteq> ''r1'')"
    by blast
  then have a: "Some ''r1'' \<notin> set (map repo_id (repos db_rest))"
    and b: "list_all (\<lambda>d. document_repo_id d \<noteq> ''r1'') (documents db_rest)"
    by (simp_all add: list_all_iff)
  have c: "conversations db_rest = [] \<and> rag_queries db_rest = [] \<and> retrieved_chunks db_rest = []"
    by (simp add: db_rest_def)
  from delete_db_full a b c show ?thesis by (intro conjI) simp_all
qed

subsection \<open>Deleting a repository twice\<close>




















end
